theory Spec2Isabelle
  imports Complex_Main "HOL-Library.Word"
begin

section \<open>ParameterInfo (CudaNonbondedUtilities.h, lines 277-322)\<close>

text \<open>
  The C++ stream insertion of an \<open>int\<close> on a fresh \<open>std::stringstream\<close> prints
  the value in decimal, with a leading minus sign for a negative value and no padding.
\<close>

definition digit_char :: "nat \<Rightarrow> char" where
  "digit_char d = ''0123456789'' ! d"

fun show_nat :: "nat \<Rightarrow> string" where
  "show_nat n = (if n < 10 then [digit_char n] else show_nat (n div 10) @ [digit_char (n mod 10)])"

declare show_nat.simps [simp del]

definition show_int :: "int \<Rightarrow> string" where
  "show_int i = (if i < 0 then CHR ''-'' # show_nat (nat (- i)) else show_nat (nat i))"

text \<open>
  The class has six private fields. \<open>int\<close> is a 32-bit two's complement value, read with
  \<open>sint\<close>. \<open>CUdeviceptr\<close> is a type of the CUDA driver interface; the class only stores
  and returns it, so it is the type parameter \<open>'m\<close>. The field \<open>size\<close> is named
  \<open>size_bytes\<close> here.
\<close>

record 'm ParameterInfo =
  name :: string
  componentType :: string
  type_tag :: string
  size_bytes :: "32 word"
  numComponents :: "32 word"
  memory :: 'm

text \<open>The constructor (lines 288-297).\<close>

definition mkParameterInfo ::
  "string \<Rightarrow> string \<Rightarrow> 32 word \<Rightarrow> 32 word \<Rightarrow> 'm \<Rightarrow> 'm ParameterInfo" where
  "mkParameterInfo nm ct nc sz mem =
     \<lparr> name = nm, componentType = ct,
       type_tag = (if nc = 1 then ct else ct @ show_int (sint nc)),
       size_bytes = sz, numComponents = nc, memory = mem \<rparr>"

definition getName :: "'m ParameterInfo \<Rightarrow> string" where
  "getName p = name p"

definition getComponentType :: "'m ParameterInfo \<Rightarrow> string" where
  "getComponentType p = componentType p"

definition getType :: "'m ParameterInfo \<Rightarrow> string" where
  "getType p = type_tag p"

definition getNumComponents :: "'m ParameterInfo \<Rightarrow> 32 word" where
  "getNumComponents p = numComponents p"

definition getSize :: "'m ParameterInfo \<Rightarrow> 32 word" where
  "getSize p = size_bytes p"

text \<open>
  \<open>getMemory\<close> returns \<open>CUdeviceptr&\<close>, a reference to the field of a non-const object.
  A reference is a way to read the field and a way to store into it: the model gives
  both, \<open>getMemory\<close> for the read and \<open>getMemory_assign\<close> for an assignment through
  the returned reference.
\<close>

definition getMemory :: "'m ParameterInfo \<Rightarrow> 'm" where
  "getMemory p = memory p"

definition getMemory_assign :: "'m ParameterInfo \<Rightarrow> 'm \<Rightarrow> 'm ParameterInfo" where
  "getMemory_assign p v = p\<lparr> memory := v \<rparr>"

section \<open>The scalar state of CudaNonbondedUtilities (lines 248-271)\<close>

text \<open>
  The private scalar fields of the class. \<open>double\<close> is modelled by \<open>real\<close>; the
  only operation the header performs on it is the comparison with the exactly
  representable value \<open>-1.0\<close>. \<open>int\<close> is a 32-bit word.
\<close>

record CudaNonbondedUtilities =
  cutoff :: real
  useCutoff :: bool
  usePeriodic :: bool
  anyExclusions :: bool
  startTileIndex :: "32 word"
  numTiles :: "32 word"
  maxTiles :: "32 word"
  numForceThreadBlocks :: "32 word"
  forceThreadBlockSize :: "32 word"
  nonbondedForceGroup :: "32 word"
  numAtoms :: "32 word"
  atomExclusions :: "nat list list"
  kernelSource :: string

definition getNumEnergyBuffers :: "CudaNonbondedUtilities \<Rightarrow> 32 word" where
  "getNumEnergyBuffers s = numForceThreadBlocks s * forceThreadBlockSize s"

definition getUseCutoff :: "CudaNonbondedUtilities \<Rightarrow> bool" where
  "getUseCutoff s = useCutoff s"

definition getUsePeriodic :: "CudaNonbondedUtilities \<Rightarrow> bool" where
  "getUsePeriodic s = usePeriodic s"

definition getNumForceThreadBlocks :: "CudaNonbondedUtilities \<Rightarrow> 32 word" where
  "getNumForceThreadBlocks s = numForceThreadBlocks s"

definition getForceThreadBlockSize :: "CudaNonbondedUtilities \<Rightarrow> 32 word" where
  "getForceThreadBlockSize s = forceThreadBlockSize s"

definition getCutoffDistance :: "CudaNonbondedUtilities \<Rightarrow> real" where
  "getCutoffDistance s = cutoff s"

definition getHasInteractions :: "CudaNonbondedUtilities \<Rightarrow> bool" where
  "getHasInteractions s = (cutoff s \<noteq> - 1)"

definition getForceGroup :: "CudaNonbondedUtilities \<Rightarrow> 32 word" where
  "getForceGroup s = nonbondedForceGroup s"

definition getStartTileIndex :: "CudaNonbondedUtilities \<Rightarrow> 32 word" where
  "getStartTileIndex s = startTileIndex s"

definition getNumTiles :: "CudaNonbondedUtilities \<Rightarrow> 32 word" where
  "getNumTiles s = numTiles s"

text \<open>An engine state with 30 thread blocks of 256 threads.\<close>

definition example_utilities :: CudaNonbondedUtilities where
  "example_utilities =
     \<lparr> cutoff = 1, useCutoff = True, usePeriodic = False, anyExclusions = False,
       startTileIndex = 0, numTiles = 3, maxTiles = 3, numForceThreadBlocks = 30,
       forceThreadBlockSize = 256, nonbondedForceGroup = 0, numAtoms = 64,
       atomExclusions = [], kernelSource = [] \<rparr>"

section \<open>The reference angle force of the test (TestReferenceAmoebaAngleForce.cpp)\<close>

text \<open>
  The test computes the expected force of one angle term in \<open>double\<close> arithmetic.
  The model is in exact real arithmetic: \<open>double\<close> is \<open>real\<close>, \<open>sqrt\<close> and
  \<open>acos\<close> are the real functions. A \<open>double[3]\<close> and a \<open>Vec3\<close> are triples, and a
  loop over the three components is written out componentwise.
\<close>

type_synonym vec3 = "real \<times> real \<times> real"

definition PI_M :: real where
  "PI_M = 3141592653589 / 1000000000000"

definition RADIAN :: real where
  "RADIAN = 5729577951308 / 100000000000"

definition vec_add :: "vec3 \<Rightarrow> vec3 \<Rightarrow> vec3" where
  "vec_add a b = (case a of (a0, a1, a2) \<Rightarrow> case b of (b0, b1, b2) \<Rightarrow>
     (a0 + b0, a1 + b1, a2 + b2))"

definition vec_sub :: "vec3 \<Rightarrow> vec3 \<Rightarrow> vec3" where
  "vec_sub a b = (case a of (a0, a1, a2) \<Rightarrow> case b of (b0, b1, b2) \<Rightarrow>
     (a0 - b0, a1 - b1, a2 - b2))"

definition vec_scale :: "real \<Rightarrow> vec3 \<Rightarrow> vec3" where
  "vec_scale k a = (case a of (a0, a1, a2) \<Rightarrow> (k * a0, k * a1, k * a2))"

definition vec_dot :: "vec3 \<Rightarrow> vec3 \<Rightarrow> real" where
  "vec_dot a b = (case a of (a0, a1, a2) \<Rightarrow> case b of (b0, b1, b2) \<Rightarrow>
     a0 * b0 + a1 * b1 + a2 * b2)"

text \<open>\<open>crossProductVector3\<close> (lines 69-76).\<close>

definition crossProductVector3 :: "vec3 \<Rightarrow> vec3 \<Rightarrow> vec3" where
  "crossProductVector3 vectorX vectorY =
     (case vectorX of (x0, x1, x2) \<Rightarrow> case vectorY of (y0, y1, y2) \<Rightarrow>
        (x1 * y2 - x2 * y1, x2 * y0 - x0 * y2, x0 * y1 - x1 * y0))"

text \<open>\<open>getPrefactorsGivenAngleCosine\<close> (lines 78-120) returns \<open>(dEdR, energyTerm)\<close>.\<close>

definition getPrefactorsGivenAngleCosine ::
  "real \<Rightarrow> real \<Rightarrow> real \<Rightarrow> real \<Rightarrow> real \<Rightarrow> real \<Rightarrow> real \<Rightarrow> real \<times> real" where
  "getPrefactorsGivenAngleCosine cosine idealAngle quadraticK cubicK quarticK penticK sexticK =
     (let angle = (if cosine \<ge> 1 then 0
                   else if cosine \<le> - 1 then RADIAN * PI_M
                   else RADIAN * arccos cosine);
          deltaIdeal = angle - idealAngle;
          deltaIdeal2 = deltaIdeal * deltaIdeal;
          deltaIdeal3 = deltaIdeal * deltaIdeal2;
          deltaIdeal4 = deltaIdeal2 * deltaIdeal2;
          dEdR = (2 + 3 * cubicK * deltaIdeal + 4 * quarticK * deltaIdeal2
                    + 5 * penticK * deltaIdeal3 + 6 * sexticK * deltaIdeal4)
                 * (RADIAN * quadraticK * deltaIdeal);
          energyTerm = (1 + cubicK * deltaIdeal + quarticK * deltaIdeal2
                          + penticK * deltaIdeal3 + sexticK * deltaIdeal4)
                       * (quadraticK * deltaIdeal2)
      in (dEdR, energyTerm))"

text \<open>
  The parameters of one angle, as \<open>getAngleParameters\<close> hands them out, and the four
  global coefficients of the force object. The class \<open>AmoebaAngleForce\<close> itself is
  not part of the test file: the model takes its data as a record.
\<close>

record AngleParameters =
  particle1 :: nat
  particle2 :: nat
  particle3 :: nat
  idealAngle :: real
  quadraticK :: real

record AmoebaAngleForce =
  angles :: "AngleParameters list"
  globalAngleCubic :: real
  globalAngleQuartic :: real
  globalAnglePentic :: real
  globalAngleSextic :: real

text \<open>
  Lines 155-160: the norm of the cross product of the two bond vectors, raised to
  \<open>1.0e-06\<close> when it is smaller.
\<close>

definition clamped_rp :: "vec3 \<Rightarrow> real" where
  "clamped_rp pVector =
     (let rp = sqrt (vec_dot pVector pVector)
      in if rp < 1 / 1000000 then 1 / 1000000 else rp)"

text \<open>
  A quotient of \<open>double\<close>s with divisor zero is an infinity or a NaN, and it has no
  value in exact arithmetic; HOL's division would give 0. The model therefore divides
  with \<open>checked_div\<close>, which has no result when the divisor is zero. In the code a zero
  divisor at line 162 or at lines 176-177 comes from a zero bond vector, whose dot
  product is zero as well: the quotient of line 162 is then \<open>0/0\<close>, a NaN, and the NaN
  spreads to \<open>dEdR\<close>, to \<open>energyTerm\<close> and to every increment.
\<close>

definition checked_div :: "real \<Rightarrow> real \<Rightarrow> real option" where
  "checked_div a b = (if b = 0 then None else Some (a / b))"

text \<open>
  Lines 179-186: the three force increments \<open>deltaCrossP[0]\<close>, \<open>deltaCrossP[1]\<close> and
  \<open>deltaCrossP[2]\<close> from the two bond vectors, their cross product and the two factors.
\<close>

definition angle_terms :: "vec3 \<Rightarrow> vec3 \<Rightarrow> vec3 \<Rightarrow> real \<Rightarrow> real \<Rightarrow> vec3 \<times> vec3 \<times> vec3" where
  "angle_terms deltaR0 deltaR1 pVector termA termC =
     (let deltaCrossP0 = vec_scale termA (crossProductVector3 deltaR0 pVector);
          deltaCrossP2 = vec_scale termC (crossProductVector3 deltaR1 pVector);
          deltaCrossP1 = vec_scale (- 1) (vec_add deltaCrossP0 deltaCrossP2)
      in (deltaCrossP0, deltaCrossP1, deltaCrossP2))"

text \<open>
  Lines 142-186: from the three positions and the parameters to the three increments and
  the energy term. The result is \<open>None\<close> when one of the three divisions (line 162, line
  176, line 177) has a zero divisor, that is when the code's increments and energy term
  are NaN.
\<close>

definition angle_increments ::
  "vec3 \<Rightarrow> vec3 \<Rightarrow> vec3 \<Rightarrow> real \<Rightarrow> real \<Rightarrow> real \<Rightarrow> real \<Rightarrow> real \<Rightarrow> real
     \<Rightarrow> ((vec3 \<times> vec3 \<times> vec3) \<times> real) option" where
  "angle_increments pos1 pos2 pos3 idealAng quadK cubicK quarticK penticK sexticK =
     (let deltaR0 = vec_sub pos1 pos2;
          r2_0 = vec_dot deltaR0 deltaR0;
          deltaR1 = vec_sub pos3 pos2;
          r2_1 = vec_dot deltaR1 deltaR1;
          pVector = crossProductVector3 deltaR0 deltaR1;
          rp = clamped_rp pVector;
          dot = vec_dot deltaR0 deltaR1
      in case checked_div dot (sqrt (r2_0 * r2_1)) of
           None \<Rightarrow> None
         | Some cosine \<Rightarrow>
             (let (dEdR, energyTerm) =
                    getPrefactorsGivenAngleCosine cosine idealAng quadK cubicK quarticK penticK
                      sexticK
              in case checked_div (- dEdR) (r2_0 * rp) of
                   None \<Rightarrow> None
                 | Some termA \<Rightarrow>
                     (case checked_div dEdR (r2_1 * rp) of
                        None \<Rightarrow> None
                      | Some termC \<Rightarrow>
                          Some (angle_terms deltaR0 deltaR1 pVector termA termC, energyTerm))))"

text \<open>
  \<open>computeAmoebaAngleForce\<close> (lines 122-201). The three \<open>+=\<close> on \<open>forces\<close> run in
  the order of the source, so that equal particle indices accumulate. An index outside
  \<open>angles\<close>, \<open>positions\<close> or \<open>forces\<close> is outside what the C++ defines: the model
  returns \<open>BadIndex\<close> there. \<open>NotANumber\<close> stands for the run in which the code adds
  NaN to the three forces and to the energy.
\<close>

datatype force_failure = BadIndex | NotANumber

definition add_at :: "vec3 list \<Rightarrow> nat \<Rightarrow> vec3 \<Rightarrow> vec3 list" where
  "add_at forces i d = forces[i := vec_add (forces ! i) d]"

definition computeAmoebaAngleForce ::
  "nat \<Rightarrow> vec3 list \<Rightarrow> AmoebaAngleForce \<Rightarrow> vec3 list \<Rightarrow> real
     \<Rightarrow> force_failure + (vec3 list \<times> real)" where
  "computeAmoebaAngleForce bondIndex positions force forces energy =
     (if bondIndex < length (angles force) then
        (let a = angles force ! bondIndex;
             p1 = particle1 a; p2 = particle2 a; p3 = particle3 a
         in if p1 < length positions \<and> p2 < length positions \<and> p3 < length positions
               \<and> p1 < length forces \<and> p2 < length forces \<and> p3 < length forces then
              (case angle_increments (positions ! p1) (positions ! p2) (positions ! p3)
                      (idealAngle a) (quadraticK a) (globalAngleCubic force)
                      (globalAngleQuartic force) (globalAnglePentic force)
                      (globalAngleSextic force) of
                 None \<Rightarrow> Inl NotANumber
               | Some ((d0, d1, d2), energyTerm) \<Rightarrow>
                   Inr (add_at (add_at (add_at forces p1 d0) p2 d1) p3 d2, energy + energyTerm))
            else Inl BadIndex)
      else Inl BadIndex)"

text \<open>The sum of a list of vectors, and the force object and positions of \<open>testOneAngle\<close>.\<close>

definition vec_sum :: "vec3 list \<Rightarrow> vec3" where
  "vec_sum vs = foldr vec_add vs (0, 0, 0)"

definition test_force :: AmoebaAngleForce where
  "test_force =
     \<lparr> angles = [\<lparr> particle1 = 0, particle2 = 1, particle3 = 2, idealAngle = 100,
                     quadraticK = 1 \<rparr>],
       globalAngleCubic = 1 / 10, globalAngleQuartic = 1 / 100,
       globalAnglePentic = 1 / 1000, globalAngleSextic = 1 / 10000 \<rparr>"

definition test_positions :: "vec3 list" where
  "test_positions = [(0, 1, 0), (0, 0, 0), (0, 0, 1)]"

section \<open>Registration of interactions\<close>

text \<open>
  The failures of the model: the two contract violations the spec names, and a read
  outside an array.
\<close>

datatype error =
  PreconditionViolation
  | ConflictingExclusions
  | OutOfRange

text \<open>
  Modelled from the spec: the constructor of \<open>CudaNonbondedUtilities\<close>, which the header
  only declares (line 67). The spec's sentinel is "cutoff distance uninitialized means
  none registered"; \<open>getHasInteractions\<close> (line 139) shows that the uninitialized value
  is \<open>-1.0\<close>. No interaction, parameter or exclusion is registered yet.
\<close>

definition new_utilities :: CudaNonbondedUtilities where
  "new_utilities =
     \<lparr> cutoff = - 1, useCutoff = False, usePeriodic = False, anyExclusions = False,
       startTileIndex = 0, numTiles = 0, maxTiles = 0, numForceThreadBlocks = 0,
       forceThreadBlockSize = 0, nonbondedForceGroup = 0, numAtoms = 0,
       atomExclusions = [], kernelSource = [] \<rparr>"

text \<open>The arguments of one call of \<open>addInteraction\<close> (line 80).\<close>

record Interaction =
  usesCutoff :: bool
  usesPeriodic :: bool
  usesExclusions :: bool
  cutoffDistance :: real
  exclusionList :: "nat list list"
  kernel :: string
  forceGroup :: "32 word"

text \<open>
  Modelled from the spec: the body of \<open>addInteraction\<close>, which the header only declares.
  It "registers a term into the default combined kernel": the term's cutoff, periodicity
  and force group become those of the default kernel and its source fragment is
  appended. The header calls \<open>cutoffDistance\<close> "the cutoff distance for this interaction
  (ignored if usesCutoff is false)": the distance of a term with cutoff is stored, and
  the argument of a term without cutoff is not read. What the cutoff field holds after a
  term without cutoff is stated neither by the header nor by the spec; it is the
  parameter \<open>unused\<close> of the model. A term that uses exclusions must bring the exclusion
  list already registered; another list "should be rejected", which the model does with
  an error that leaves the state as it was.
\<close>

definition addInteraction ::
  "real \<Rightarrow> Interaction \<Rightarrow> CudaNonbondedUtilities \<Rightarrow> error + CudaNonbondedUtilities" where
  "addInteraction unused t s =
     (if usesExclusions t \<and> anyExclusions s \<and> atomExclusions s \<noteq> exclusionList t
      then Inl ConflictingExclusions
      else Inr (s\<lparr> cutoff := (if usesCutoff t then cutoffDistance t else unused),
                    useCutoff := usesCutoff t,
                    usePeriodic := usesPeriodic t,
                    anyExclusions := (anyExclusions s \<or> usesExclusions t),
                    atomExclusions := (if usesExclusions t then exclusionList t
                                       else atomExclusions s),
                    kernelSource := kernelSource s @ kernel t,
                    nonbondedForceGroup := forceGroup t \<rparr>))"

text \<open>
  A setup phase: the calls of \<open>addInteraction\<close> in order. The result is the state and
  the number of calls that registered their term; a rejected call registers nothing.
\<close>

fun register_all ::
  "real \<Rightarrow> Interaction list \<Rightarrow> CudaNonbondedUtilities \<Rightarrow> CudaNonbondedUtilities \<times> nat" where
  "register_all unused [] s = (s, 0)"
| "register_all unused (t # ts) s =
     (case addInteraction unused t s of
        Inl e \<Rightarrow> register_all unused ts s
      | Inr s' \<Rightarrow> (case register_all unused ts s' of (s'', n) \<Rightarrow> (s'', Suc n)))"

text \<open>
  Two terms with cutoff: one whose cutoff distance is the sentinel value, and one with
  cutoff distance 1.
\<close>

definition sentinel_interaction :: Interaction where
  "sentinel_interaction =
     \<lparr> usesCutoff = True, usesPeriodic = False, usesExclusions = False,
       cutoffDistance = - 1, exclusionList = [], kernel = ''energy += 1;'',
       forceGroup = 0 \<rparr>"

definition coulomb_interaction :: Interaction where
  "coulomb_interaction =
     \<lparr> usesCutoff = True, usesPeriodic = False, usesExclusions = False,
       cutoffDistance = 1, exclusionList = [], kernel = ''energy += 1;'',
       forceGroup = 0 \<rparr>"

section \<open>ExclusionEncoder\<close>

text \<open>
  Modelled from the spec: the exclusion encoding and \<open>findExclusionIndex\<close>. The header
  declares \<open>findExclusionIndex\<close> (line 247) and the three arrays (lines 254-256); the
  code that fills them and the body of the lookup are not in the header. The model
  follows section 4.2 of the spec.

  A block is a run of \<open>blockSize\<close> consecutive particle indices, and there are
  \<open>ceil(numAtoms / blockSize)\<close> of them. The unordered pair \<open>(i, j)\<close> belongs to the tile
  \<open>(block (max i j), block (min i j))\<close>, and its bit in the tile's mask is at the
  position (local row of the larger index, local column of the smaller index), counted
  row by row.
\<close>

record ExclusionSet =
  exclusions :: "nat list"
  exclusionIndices :: "nat list"
  exclusionRowIndices :: "nat list"

definition block_of :: "nat \<Rightarrow> nat \<Rightarrow> nat" where
  "block_of blockSize i = i div blockSize"

definition numBlocks_of :: "nat \<Rightarrow> nat \<Rightarrow> nat" where
  "numBlocks_of nAtoms blockSize = (nAtoms + blockSize - 1) div blockSize"

definition owning_tile :: "nat \<Rightarrow> nat \<times> nat \<Rightarrow> nat \<times> nat" where
  "owning_tile blockSize p =
     (block_of blockSize (max (fst p) (snd p)), block_of blockSize (min (fst p) (snd p)))"

definition bit_position :: "nat \<Rightarrow> nat \<times> nat \<Rightarrow> nat" where
  "bit_position blockSize p =
     (max (fst p) (snd p) mod blockSize) * blockSize + min (fst p) (snd p) mod blockSize"

text \<open>The pairs \<open>(i, j)\<close> with \<open>j\<close> in \<open>exclusionList[i]\<close>, in the order of the list.\<close>

definition listed_pairs :: "nat list list \<Rightarrow> (nat \<times> nat) list" where
  "listed_pairs exclList =
     concat (map (\<lambda>i. map (\<lambda>j. (i, j)) (exclList ! i)) [0..<length exclList])"

text \<open>"Accumulate one bit per pair into that tile's mask."\<close>

fun accumulate_masks :: "nat \<Rightarrow> (nat \<times> nat) list \<Rightarrow> (nat \<times> nat \<Rightarrow> nat) \<Rightarrow> (nat \<times> nat \<Rightarrow> nat)" where
  "accumulate_masks blockSize [] m = m"
| "accumulate_masks blockSize (p # ps) m =
     accumulate_masks blockSize ps
       (m(owning_tile blockSize p :=
            set_bit (bit_position blockSize p) (m (owning_tile blockSize p))))"

definition tile_mask :: "nat list list \<Rightarrow> nat \<Rightarrow> nat \<times> nat \<Rightarrow> nat" where
  "tile_mask exclList blockSize =
     accumulate_masks blockSize (listed_pairs exclList) (\<lambda>t. 0)"

text \<open>
  "Emit rows sorted by block index \<open>y\<close>, and within each row emit tile column indices
  \<open>x\<close> in ascending order": row \<open>y\<close> holds the columns \<open>x \<ge> y\<close> whose tile has a
  nonempty mask. \<open>exclusionRowIndices[y]\<close> is the number of tiles emitted before row
  \<open>y\<close>, and the last entry is the total.
\<close>

definition row_columns :: "(nat \<times> nat \<Rightarrow> nat) \<Rightarrow> nat \<Rightarrow> nat \<Rightarrow> nat list" where
  "row_columns m nb y = filter (\<lambda>x. m (x, y) \<noteq> 0) [y..<nb]"

definition emitted_tiles :: "(nat \<times> nat \<Rightarrow> nat) \<Rightarrow> nat \<Rightarrow> (nat \<times> nat) list" where
  "emitted_tiles m nb = concat (map (\<lambda>y. map (\<lambda>x. (x, y)) (row_columns m nb y)) [0..<nb])"

fun row_offsets :: "nat \<Rightarrow> 'a list list \<Rightarrow> nat list" where
  "row_offsets acc [] = [acc]"
| "row_offsets acc (r # rs) = acc # row_offsets (acc + length r) rs"

definition build :: "nat list list \<Rightarrow> nat \<Rightarrow> nat \<Rightarrow> ExclusionSet" where
  "build exclList nAtoms blockSize =
     (let nb = numBlocks_of nAtoms blockSize;
          m = tile_mask exclList blockSize
      in \<lparr> exclusions = map m (emitted_tiles m nb),
           exclusionIndices = map fst (emitted_tiles m nb),
           exclusionRowIndices = row_offsets 0 (map (row_columns m nb) [0..<nb]) \<rparr>)"

text \<open>
  The lookup scans \<open>exclusionIndices\<close> from \<open>exclusionRowIndices[y]\<close> up to
  \<open>exclusionRowIndices[y+1]\<close> for the value \<open>x\<close>. It "fails with a precondition
  violation if \<open>x < y\<close> or if \<open>x\<close> is not found". \<open>x\<close> and \<open>y\<close> are \<open>int\<close> in the
  declaration and may be negative; the two arrays are \<open>indices\<close> and \<open>rowIndices\<close>
  here. A read outside one of the arrays, on which the spec
  is silent, is the error \<open>OutOfRange\<close>.
\<close>

function scan_row :: "nat list \<Rightarrow> nat \<Rightarrow> nat \<Rightarrow> nat \<Rightarrow> error + nat" where
  "scan_row indices x i end_row =
     (if i < end_row then
        (if i < length indices then
           (if indices ! i = x then Inr i else scan_row indices x (Suc i) end_row)
         else Inl OutOfRange)
      else Inl PreconditionViolation)"
  by pat_completeness auto
termination
  by (relation "measure (\<lambda>(indices, x, i, end_row). end_row - i)") auto

declare scan_row.simps [simp del]

definition findExclusionIndex :: "int \<Rightarrow> int \<Rightarrow> nat list \<Rightarrow> nat list \<Rightarrow> error + nat" where
  "findExclusionIndex x y indices rowIndices =
     (if x < y then Inl PreconditionViolation
      else if y < 0 \<or> length rowIndices \<le> nat y + 1 then Inl OutOfRange
      else scan_row indices (nat x) (rowIndices ! nat y) (rowIndices ! (nat y + 1)))"

text \<open>The number of tiles emitted before row \<open>y\<close>.\<close>

definition row_start :: "(nat \<times> nat \<Rightarrow> nat) \<Rightarrow> nat \<Rightarrow> nat \<Rightarrow> nat" where
  "row_start m nb y = length (concat (take y (map (row_columns m nb) [0..<nb])))"

text \<open>Four particles in blocks of two; particle 1 is excluded from 0 and from 2.\<close>

definition example_exclusions :: "nat list list" where
  "example_exclusions = [[1], [0, 2], [1], []]"

section \<open>NeighborListBuilder and NonbondedEngine\<close>

text \<open>
  Modelled from the spec: \<open>prepareInteractions\<close>, \<open>computeInteractions\<close> and
  \<open>updateNeighborListSize\<close>, which the header only declares (lines 150, 154, 158), with
  the three neighbor list kernels \<open>findBlockBounds\<close>, \<open>findInteractingBlocks\<close> and
  \<open>findInteractionsWithinBlocks\<close> and the force kernel (lines 250-253), whose sources
  are not in the header. The model follows sections 3, 4.3 and 4.5 of the spec.

  Each data-parallel pass is modelled as a sequential pass in index order, and the atomic
  append as an append. Coordinates and distances are exact reals, and a distance is
  compared with the cutoff through the squares, so that the model needs no square root.
  The initial capacity and the growth factor, which the spec leaves open, are fields of
  the state. The spec allows the discovery test to add a reuse margin to the cutoff; the
  model adds none.
\<close>

record NonbondedEngine =
  positions :: "vec3 list"
  blockSize :: nat
  cutoff_distance :: real
  uses_cutoff :: bool
  uses_periodic :: bool
  periodicBoxSize :: vec3
  excluded_atoms :: "nat list list"
  exclusion_set :: ExclusionSet
  tile_start :: nat
  tile_count :: nat
  max_tiles :: nat
  growth_factor :: nat
  interactionCount :: nat
  interactingTiles :: "(nat \<times> nat) list"
  interactionFlags :: "nat list"
  blockCenter :: "vec3 list"
  blockBoundingBox :: "vec3 list"

definition axis :: "nat \<Rightarrow> vec3 \<Rightarrow> real" where
  "axis k v = (case v of (a, b, c) \<Rightarrow> if k = 0 then a else if k = 1 then b else c)"

definition engine_numAtoms :: "NonbondedEngine \<Rightarrow> nat" where
  "engine_numAtoms s = length (positions s)"

definition engine_numBlocks :: "NonbondedEngine \<Rightarrow> nat" where
  "engine_numBlocks s = numBlocks_of (engine_numAtoms s) (blockSize s)"

subsection \<open>Periodic boundary conditions\<close>

text \<open>
  Folding a coordinate into the primary cell \<open>[0, b)\<close>, and the nearest periodic image of
  a coordinate difference, which lies in \<open>[-b/2, b/2)\<close>.
\<close>

definition fold_into_cell :: "real \<Rightarrow> real \<Rightarrow> real" where
  "fold_into_cell b x = x - of_int \<lfloor>x / b\<rfloor> * b"

definition nearest_image :: "real \<Rightarrow> real \<Rightarrow> real" where
  "nearest_image b d = d - of_int \<lfloor>d / b + 1 / 2\<rfloor> * b"

definition image_delta :: "NonbondedEngine \<Rightarrow> nat \<Rightarrow> real \<Rightarrow> real" where
  "image_delta s k d =
     (if uses_periodic s then nearest_image (axis k (periodicBoxSize s)) d else d)"

definition wrapped_coordinate :: "NonbondedEngine \<Rightarrow> nat \<Rightarrow> nat \<Rightarrow> real" where
  "wrapped_coordinate s k i =
     (if uses_periodic s
      then fold_into_cell (axis k (periodicBoxSize s)) (axis k (positions s ! i))
      else axis k (positions s ! i))"

subsection \<open>Phase 1: bound computation\<close>

text \<open>
  The particles of block \<open>b\<close>, and the reduction of their (folded) coordinates on one axis
  to a centre and a half extent.
\<close>

definition block_atoms :: "NonbondedEngine \<Rightarrow> nat \<Rightarrow> nat list" where
  "block_atoms s b = [b * blockSize s ..< min ((b + 1) * blockSize s) (engine_numAtoms s)]"

definition reduce_min :: "real list \<Rightarrow> real" where
  "reduce_min xs = (case xs of [] \<Rightarrow> 0 | x # rest \<Rightarrow> fold min rest x)"

definition reduce_max :: "real list \<Rightarrow> real" where
  "reduce_max xs = (case xs of [] \<Rightarrow> 0 | x # rest \<Rightarrow> fold max rest x)"

definition axis_center :: "NonbondedEngine \<Rightarrow> nat \<Rightarrow> nat \<Rightarrow> real" where
  "axis_center s b k =
     (let xs = map (wrapped_coordinate s k) (block_atoms s b)
      in (reduce_min xs + reduce_max xs) / 2)"

definition axis_extent :: "NonbondedEngine \<Rightarrow> nat \<Rightarrow> nat \<Rightarrow> real" where
  "axis_extent s b k =
     (let xs = map (wrapped_coordinate s k) (block_atoms s b)
      in (reduce_max xs - reduce_min xs) / 2)"

definition findBlockBounds :: "NonbondedEngine \<Rightarrow> NonbondedEngine" where
  "findBlockBounds s =
     s\<lparr> blockCenter :=
          map (\<lambda>b. (axis_center s b 0, axis_center s b 1, axis_center s b 2))
            [0..<engine_numBlocks s],
        blockBoundingBox :=
          map (\<lambda>b. (axis_extent s b 0, axis_extent s b 1, axis_extent s b 2))
            [0..<engine_numBlocks s] \<rparr>"

subsection \<open>Phase 2: block-pair discovery\<close>

text \<open>
  The smallest possible distance of two bounding boxes on one axis, and the test of a
  tile. Without a cutoff every tile interacts.
\<close>

definition axis_gap :: "NonbondedEngine \<Rightarrow> nat \<Rightarrow> nat \<Rightarrow> nat \<Rightarrow> real" where
  "axis_gap s k x y =
     max 0 (\<bar>image_delta s k (axis k (blockCenter s ! x) - axis k (blockCenter s ! y))\<bar>
            - axis k (blockBoundingBox s ! x) - axis k (blockBoundingBox s ! y))"

definition box_distance2 :: "NonbondedEngine \<Rightarrow> nat \<Rightarrow> nat \<Rightarrow> real" where
  "box_distance2 s x y =
     axis_gap s 0 x y * axis_gap s 0 x y + axis_gap s 1 x y * axis_gap s 1 x y
       + axis_gap s 2 x y * axis_gap s 2 x y"

definition tile_interacts :: "NonbondedEngine \<Rightarrow> nat \<times> nat \<Rightarrow> bool" where
  "tile_interacts s t =
     (\<not> uses_cutoff s
      \<or> box_distance2 s (fst t) (snd t) \<le> cutoff_distance s * cutoff_distance s)"

text \<open>
  The tile space: every \<open>(x, y)\<close> with \<open>y \<le> x < numBlocks\<close>, once, row by row. The
  engine is responsible for the \<open>tile_count\<close> tiles from position \<open>tile_start\<close> on.
\<close>

definition all_tiles :: "nat \<Rightarrow> (nat \<times> nat) list" where
  "all_tiles nb = concat (map (\<lambda>y. map (\<lambda>x. (x, y)) [y..<nb]) [0..<nb])"

definition tile_range :: "NonbondedEngine \<Rightarrow> (nat \<times> nat) list" where
  "tile_range s = take (tile_count s) (drop (tile_start s) (all_tiles (engine_numBlocks s)))"

text \<open>
  One discovery pass over the tiles. Every interacting tile increments the counter; it
  is stored at the slot the counter gave it only if the slot is inside the capacity.
\<close>

fun discover ::
  "(nat \<times> nat \<Rightarrow> bool) \<Rightarrow> nat \<Rightarrow> (nat \<times> nat) list \<Rightarrow> nat \<times> (nat \<times> nat) list
     \<Rightarrow> nat \<times> (nat \<times> nat) list" where
  "discover near cap [] acc = acc"
| "discover near cap (t # ts) (count, stored) =
     (if near t
      then discover near cap ts (Suc count, if count < cap then stored @ [t] else stored)
      else discover near cap ts (count, stored))"

definition findInteractingBlocks :: "NonbondedEngine \<Rightarrow> NonbondedEngine" where
  "findInteractingBlocks s =
     (case discover (tile_interacts s) (max_tiles s) (tile_range s) (0, []) of
        (count, stored) \<Rightarrow> s\<lparr> interactionCount := count, interactingTiles := stored \<rparr>)"

subsection \<open>Phase 3: overflow check and growth\<close>

text \<open>
  "If the post-pass interaction counter exceeds \<open>maxTiles\<close>, the list is incomplete; the
  caller must grow all tile-indexed arrays by a multiplicative factor, clear the
  counter, and re-run phase 2." The new arrays are empty: nothing is copied forward.
\<close>

definition updateNeighborListSize :: "NonbondedEngine \<Rightarrow> NonbondedEngine" where
  "updateNeighborListSize s =
     (if interactionCount s \<le> max_tiles s then s
      else s\<lparr> max_tiles := growth_factor s * max_tiles s,
              interactionCount := 0, interactingTiles := [], interactionFlags := [] \<rparr>)"

text \<open>
  The retry is "not bounded in iteration count by construction": the loop is a partial
  function, and \<open>None\<close> stands for a loop that never ends.
\<close>

partial_function (option) discovery_loop :: "NonbondedEngine \<Rightarrow> NonbondedEngine option" where
  "discovery_loop s =
     (let s1 = findInteractingBlocks s
      in if interactionCount s1 \<le> max_tiles s1 then Some s1
         else discovery_loop (updateNeighborListSize s1))"

declare discovery_loop.simps [code]

subsection \<open>Phase 4: fine pairing\<close>

text \<open>
  The squared distance of two particles (of the nearest images, when periodic), and the
  test against the cutoff.
\<close>

definition pair_delta :: "NonbondedEngine \<Rightarrow> nat \<Rightarrow> nat \<Rightarrow> nat \<Rightarrow> real" where
  "pair_delta s k i j = image_delta s k (axis k (positions s ! i) - axis k (positions s ! j))"

definition pair_distance2 :: "NonbondedEngine \<Rightarrow> nat \<Rightarrow> nat \<Rightarrow> real" where
  "pair_distance2 s i j =
     pair_delta s 0 i j * pair_delta s 0 i j + pair_delta s 1 i j * pair_delta s 1 i j
       + pair_delta s 2 i j * pair_delta s 2 i j"

definition within_cutoff :: "NonbondedEngine \<Rightarrow> nat \<Rightarrow> nat \<Rightarrow> bool" where
  "within_cutoff s i j =
     (\<not> uses_cutoff s \<or> pair_distance2 s i j \<le> cutoff_distance s * cutoff_distance s)"

text \<open>
  The exclusion mask of a tile, through \<open>findExclusionIndex\<close>; "not found" is "no
  exclusions for this tile".
\<close>

definition tile_exclusions :: "NonbondedEngine \<Rightarrow> nat \<times> nat \<Rightarrow> nat" where
  "tile_exclusions s t =
     (case findExclusionIndex (int (fst t)) (int (snd t))
             (exclusionIndices (exclusion_set s)) (exclusionRowIndices (exclusion_set s)) of
        Inr p \<Rightarrow> exclusions (exclusion_set s) ! p
      | Inl e \<Rightarrow> 0)"

text \<open>
  Bit \<open>n = r * blockSize + c\<close> of the flags of tile \<open>(x, y)\<close> stands for the pair of
  particle \<open>i = x * blockSize + r\<close> with particle \<open>j = y * blockSize + c\<close>. It is set when
  the two are a pair of existing particles (\<open>j < i < numAtoms\<close>) within the cutoff, and
  forced off when the pair is excluded.
\<close>

definition pair_on :: "NonbondedEngine \<Rightarrow> nat \<times> nat \<Rightarrow> nat \<Rightarrow> bool" where
  "pair_on s t n =
     (let i = fst t * blockSize s + n div blockSize s;
          j = snd t * blockSize s + n mod blockSize s
      in j < i \<and> i < engine_numAtoms s \<and> within_cutoff s i j
         \<and> \<not> bit (tile_exclusions s t) n)"

definition tile_flags :: "NonbondedEngine \<Rightarrow> nat \<times> nat \<Rightarrow> nat" where
  "tile_flags s t =
     fold (\<lambda>n acc. if pair_on s t n then set_bit n acc else acc)
       [0..<blockSize s * blockSize s] 0"

definition findInteractionsWithinBlocks :: "NonbondedEngine \<Rightarrow> NonbondedEngine" where
  "findInteractionsWithinBlocks s =
     s\<lparr> interactionFlags := map (tile_flags s) (interactingTiles s) \<rparr>"

subsection \<open>The per-step protocol\<close>

text \<open>
  \<open>prepareInteractions\<close> runs phases 1 to 3 and then the fine pairing as a pass of its
  own, the option that the kernel \<open>findInteractionsWithinBlocksKernel\<close> of the header
  stands for.
\<close>

definition prepareInteractions :: "NonbondedEngine \<Rightarrow> NonbondedEngine option" where
  "prepareInteractions s =
     (case discovery_loop (findBlockBounds s) of
        None \<Rightarrow> None
      | Some s1 \<Rightarrow> Some (findInteractionsWithinBlocks s1))"

text \<open>
  The pairs the default kernel evaluates: for the tile at position \<open>k\<close> of the list, the
  pairs whose bit is set in the flags at position \<open>k\<close>.
\<close>

definition tile_pairs :: "nat \<Rightarrow> nat \<Rightarrow> nat \<times> nat \<Rightarrow> nat \<Rightarrow> (nat \<times> nat \<times> nat) list" where
  "tile_pairs bs k t flags =
     map (\<lambda>n. (k, fst t * bs + n div bs, snd t * bs + n mod bs))
       (filter (\<lambda>n. bit flags n) [0..<bs * bs])"

definition evaluated_pairs :: "NonbondedEngine \<Rightarrow> (nat \<times> nat \<times> nat) list" where
  "evaluated_pairs s =
     concat (map (\<lambda>k. tile_pairs (blockSize s) k (interactingTiles s ! k) (interactionFlags s ! k))
       [0..<min (length (interactingTiles s)) (length (interactionFlags s))])"

text \<open>
  The registered interaction is a function from a pair of particle indices to the force
  on the first, the force on the second and the energy. The kernel adds the forces into
  the shared force buffer, and the energy into the energy buffer of the unit that
  processes the tile.
\<close>

type_synonym pair_term = "nat \<Rightarrow> nat \<Rightarrow> vec3 \<times> vec3 \<times> real"

definition accumulate_pair ::
  "pair_term \<Rightarrow> nat \<times> nat \<times> nat \<Rightarrow> vec3 list \<times> real list \<Rightarrow> vec3 list \<times> real list" where
  "accumulate_pair term e acc =
     (case e of (k, i, j) \<Rightarrow> case acc of (forces, energies) \<Rightarrow>
        case term i j of (fi, fj, en) \<Rightarrow>
          (add_at (add_at forces i fi) j fj,
           energies[k mod length energies := energies ! (k mod length energies) + en]))"

definition computeInteractions ::
  "pair_term \<Rightarrow> NonbondedEngine \<Rightarrow> vec3 list \<times> real list \<Rightarrow> vec3 list \<times> real list" where
  "computeInteractions term s buffers = fold (accumulate_pair term) (evaluated_pairs s) buffers"

text \<open>
  Modelled from the spec: \<open>initialize\<close> (declared on line 98) "builds the ExclusionSet"
  and "sizes initial neighbor-list capacity from particle/block counts". An engine is
  ready when its block size is positive, its exclusion arrays are the encoding of its
  exclusion list, its capacity is positive and its growth factor is at least 2.
\<close>

definition engine_ready :: "NonbondedEngine \<Rightarrow> bool" where
  "engine_ready s =
     (0 < blockSize s \<and> 1 \<le> max_tiles s \<and> 2 \<le> growth_factor s
      \<and> exclusion_set s = build (excluded_atoms s) (engine_numAtoms s) (blockSize s)
      \<and> (uses_periodic s \<longrightarrow> 0 < axis 0 (periodicBoxSize s)
            \<and> 0 < axis 1 (periodicBoxSize s) \<and> 0 < axis 2 (periodicBoxSize s)))"

text \<open>The engine owns the whole tile space (a single device).\<close>

definition owns_all_tiles :: "NonbondedEngine \<Rightarrow> bool" where
  "owns_all_tiles s =
     (tile_start s = 0 \<and> length (all_tiles (engine_numBlocks s)) \<le> tile_count s)"

text \<open>
  The pair \<open>(i, j)\<close> is excluded when either particle lists the other.
\<close>

definition excluded_pair :: "nat list list \<Rightarrow> nat \<Rightarrow> nat \<Rightarrow> bool" where
  "excluded_pair exclList i j =
     ((i < length exclList \<and> j \<in> set (exclList ! i))
      \<or> (j < length exclList \<and> i \<in> set (exclList ! j)))"

text \<open>
  The pair \<open>(i, j)\<close> has its bit set in the flags of the tile at position \<open>k\<close> of the list.
\<close>

definition pair_flagged :: "NonbondedEngine \<Rightarrow> nat \<Rightarrow> nat \<Rightarrow> nat \<Rightarrow> bool" where
  "pair_flagged s k i j =
     (k < length (interactingTiles s) \<and> k < length (interactionFlags s)
      \<and> interactingTiles s ! k = (block_of (blockSize s) i, block_of (blockSize s) j)
      \<and> bit (interactionFlags s ! k) (bit_position (blockSize s) (i, j)))"

text \<open>
  Four particles on a line in blocks of two, cutoff 3/2, particle 1 excluded from 0 and
  from 2, and room for a single tile at the start.
\<close>

definition example_engine :: NonbondedEngine where
  "example_engine =
     \<lparr> positions = [(0, 0, 0), (1, 0, 0), (2, 0, 0), (10, 0, 0)],
       blockSize = 2, cutoff_distance = 3 / 2, uses_cutoff = True, uses_periodic = False,
       periodicBoxSize = (0, 0, 0),
       excluded_atoms = [[1], [0], [], []],
       exclusion_set = \<lparr> exclusions = [4], exclusionIndices = [0],
                          exclusionRowIndices = [0, 1, 1] \<rparr>,
       tile_start = 0, tile_count = 3, max_tiles = 1, growth_factor = 2,
       interactionCount = 0, interactingTiles = [], interactionFlags = [],
       blockCenter = [], blockBoundingBox = [] \<rparr>"

text \<open>
  The tiles of the engine's range that pass the test of phase 2, all of them: what a
  discovery pass finds when no capacity limits it. Its length is the true count.
\<close>

definition all_interacting :: "NonbondedEngine \<Rightarrow> (nat \<times> nat) list" where
  "all_interacting s = filter (tile_interacts s) (tile_range s)"

text \<open>
  \<open>settled s r\<close>: the state \<open>r\<close> is \<open>s\<close> with a capacity that holds all interacting
  tiles, the complete list of them, their count, and some flags array.
\<close>

definition settled :: "NonbondedEngine \<Rightarrow> NonbondedEngine \<Rightarrow> bool" where
  "settled s r \<longleftrightarrow>
     (\<exists>m fs. length (all_interacting s) \<le> m
        \<and> r = s\<lparr> max_tiles := m, interactionCount := length (all_interacting s),
                  interactingTiles := all_interacting s, interactionFlags := fs \<rparr>)"

text \<open>The example engine after \<open>prepareInteractions\<close>.\<close>

definition example_prepared :: NonbondedEngine where
  "example_prepared =
     example_engine\<lparr> max_tiles := 4, interactionCount := 3,
       interactingTiles := [(0, 0), (1, 0), (1, 1)], interactionFlags := [0, 2, 0],
       blockCenter := [(1 / 2, 0, 0), (6, 0, 0)],
       blockBoundingBox := [(1 / 2, 0, 0), (4, 0, 0)] \<rparr>"

section \<open>Properties of ParameterInfo\<close>

lemma show_nat_nonempty: "show_nat n \<noteq> []"
  by (subst show_nat.simps) simp

lemma show_int_nonempty: "show_int i \<noteq> []"
  by (simp add: show_int_def show_nat_nonempty)

text \<open>
  Claim C7. A \<open>ParameterInfo\<close> built from \<open>(name, componentType, numComponents, size,
  memory)\<close> returns each of the five values from its getter. \<open>getType\<close> is the
  component type followed by the decimal count when the count is greater than 1, and the
  component type alone when the count is 1. \<open>getMemory\<close> yields a reference to the
  stored handle: reading it gives the handle, and an assignment through it replaces the
  handle and leaves every other getter as it was.
\<close>

theorem ParameterInfo_getters:
  fixes mem :: 'm and nm ct nc sz
  defines "p \<equiv> mkParameterInfo nm ct nc sz mem"
  shows "getName p = nm \<and> getComponentType p = ct \<and> getNumComponents p = nc
       \<and> getSize p = sz \<and> getMemory p = mem
       \<and> (1 < sint nc \<longrightarrow> getType p = ct @ show_int (sint nc))
       \<and> (nc = 1 \<longrightarrow> getType p = ct)
       \<and> getMemory (getMemory_assign p v) = v
       \<and> getName (getMemory_assign p v) = nm
       \<and> getComponentType (getMemory_assign p v) = ct
       \<and> getType (getMemory_assign p v) = getType p
       \<and> getNumComponents (getMemory_assign p v) = nc
       \<and> getSize (getMemory_assign p v) = sz"
  unfolding p_def
  by (auto simp: mkParameterInfo_def getName_def getComponentType_def getNumComponents_def
      getSize_def getMemory_def getType_def getMemory_assign_def)

theorem ParameterInfo_getters_witness:
  "1 < sint (4 :: 32 word) \<and> (1 :: 32 word) = 1
   \<and> getType (mkParameterInfo ''sigmaEpsilon'' ''float'' 4 16 (7 :: 64 word)) = ''float4''
   \<and> getType (mkParameterInfo ''charge'' ''float'' 1 4 (7 :: 64 word)) = ''float''
   \<and> getSize (mkParameterInfo ''sigmaEpsilon'' ''float'' 4 16 (7 :: 64 word)) = 16
   \<and> getMemory (getMemory_assign (mkParameterInfo ''charge'' ''float'' 1 4 (7 :: 64 word)) 9) = 9"
  using ParameterInfo_getters [of "''sigmaEpsilon''" "''float''" 4 16 "7 :: 64 word" 0]
    ParameterInfo_getters [of "''charge''" "''float''" 1 4 "7 :: 64 word" 9]
  by (simp add: show_int_def show_nat.simps digit_char_def)

text \<open>
  Claim C8. Whenever \<open>numComponents\<close> differs from 1, zero and negative counts
  included, \<open>getType\<close> is the component type with the decimal count appended; the
  component type alone is returned exactly when \<open>numComponents\<close> is 1.
\<close>

theorem getType_suffix_unless_one:
  fixes mem :: 'm
  shows "(nc \<noteq> 1 \<longrightarrow> getType (mkParameterInfo nm ct nc sz mem) = ct @ show_int (sint nc))
       \<and> (getType (mkParameterInfo nm ct nc sz mem) = ct \<longleftrightarrow> nc = 1)"
  by (simp add: mkParameterInfo_def getType_def show_int_nonempty)

theorem getType_suffix_unless_one_witness:
  "(0 :: 32 word) \<noteq> 1 \<and> (- 3 :: 32 word) \<noteq> 1
   \<and> getType (mkParameterInfo ''q'' ''float'' 0 4 (7 :: 64 word)) = ''float0''
   \<and> getType (mkParameterInfo ''q'' ''float'' (- 3) 4 (7 :: 64 word)) = ''float-3''
   \<and> getType (mkParameterInfo ''q'' ''float'' 1 4 (7 :: 64 word)) = ''float''"
  using getType_suffix_unless_one [of 0 "''q''" "''float''" 4 "7 :: 64 word"]
    getType_suffix_unless_one [of "- 3" "''q''" "''float''" 4 "7 :: 64 word"]
    getType_suffix_unless_one [of 1 "''q''" "''float''" 4 "7 :: 64 word"]
  by (simp add: show_int_def show_nat.simps digit_char_def)

section \<open>Properties of the inline getters\<close>

text \<open>
  Claim C6. \<open>getNumEnergyBuffers\<close> returns the product of the values that
  \<open>getNumForceThreadBlocks\<close> and \<open>getForceThreadBlockSize\<close> return. The product is
  the \<open>int\<close> product of the source; whenever the mathematical product of the two
  signed values fits in 32 bits, the returned value is that product.
\<close>

theorem getNumEnergyBuffers_product:
  "getNumEnergyBuffers s = getNumForceThreadBlocks s * getForceThreadBlockSize s
   \<and> (- (2 ^ 31) \<le> sint (getNumForceThreadBlocks s) * sint (getForceThreadBlockSize s)
      \<and> sint (getNumForceThreadBlocks s) * sint (getForceThreadBlockSize s) < 2 ^ 31
      \<longrightarrow> sint (getNumEnergyBuffers s)
          = sint (getNumForceThreadBlocks s) * sint (getForceThreadBlockSize s))"
  by (simp add: getNumEnergyBuffers_def getNumForceThreadBlocks_def getForceThreadBlockSize_def
      sint_word_ariths signed_take_bit_int_eq_self)

theorem getNumEnergyBuffers_product_witness:
  "- (2 ^ 31) \<le> sint (getNumForceThreadBlocks example_utilities)
                   * sint (getForceThreadBlockSize example_utilities)
   \<and> sint (getNumForceThreadBlocks example_utilities)
       * sint (getForceThreadBlockSize example_utilities) < 2 ^ 31
   \<and> getNumEnergyBuffers example_utilities = 7680
   \<and> sint (getNumEnergyBuffers example_utilities) = 30 * 256"
  using getNumEnergyBuffers_product [of example_utilities]
  by (simp add: example_utilities_def getNumForceThreadBlocks_def getForceThreadBlockSize_def)

section \<open>Properties of the reference angle force\<close>

lemma clamped_rp_lower: "1 / 1000000 \<le> clamped_rp pVector"
  by (cases "sqrt (vec_dot pVector pVector) < 1 / 1000000") (simp_all add: clamped_rp_def)

lemma clamped_rp_positive: "0 < clamped_rp pVector"
  using clamped_rp_lower [of pVector] by linarith

lemma collinear_cross_zero: "crossProductVector3 d (vec_scale k d) = (0, 0, 0)"
  by (cases d) (simp add: crossProductVector3_def vec_scale_def)

lemma vec_sub_add_cancel: "vec_sub (vec_add b c) b = c"
  by (cases b, cases c) (simp add: vec_sub_def vec_add_def)

lemma sum_squares_zero:
  fixes a b c :: real
  shows "a * a + b * b + c * c = 0 \<longleftrightarrow> a = 0 \<and> b = 0 \<and> c = 0"
proof
  assume h: "a * a + b * b + c * c = 0"
  have "0 \<le> a * a" "0 \<le> b * b" "0 \<le> c * c" by simp_all
  with h have "a * a = 0" "b * b = 0" "c * c = 0" by linarith+
  then show "a = 0 \<and> b = 0 \<and> c = 0" by simp
next
  assume "a = 0 \<and> b = 0 \<and> c = 0"
  then show "a * a + b * b + c * c = 0" by simp
qed

lemma bond_length_zero: "vec_dot (vec_sub p q) (vec_sub p q) = 0 \<longleftrightarrow> p = q"
  by (cases p, cases q) (simp add: vec_dot_def vec_sub_def sum_squares_zero)

lemma angle_increments_defined:
  assumes "pos1 \<noteq> pos2" "pos3 \<noteq> pos2"
  shows "angle_increments pos1 pos2 pos3 idealAng quadK cubicK quarticK penticK sexticK
     = (let deltaR0 = vec_sub pos1 pos2;
            r2_0 = vec_dot deltaR0 deltaR0;
            deltaR1 = vec_sub pos3 pos2;
            r2_1 = vec_dot deltaR1 deltaR1;
            pVector = crossProductVector3 deltaR0 deltaR1;
            rp = clamped_rp pVector;
            prefactors = getPrefactorsGivenAngleCosine
              (vec_dot deltaR0 deltaR1 / sqrt (r2_0 * r2_1)) idealAng quadK cubicK quarticK
              penticK sexticK
        in Some (angle_terms deltaR0 deltaR1 pVector (- fst prefactors / (r2_0 * rp))
                   (fst prefactors / (r2_1 * rp)), snd prefactors))"
proof -
  have "vec_dot (vec_sub pos1 pos2) (vec_sub pos1 pos2) \<noteq> 0"
      "vec_dot (vec_sub pos3 pos2) (vec_sub pos3 pos2) \<noteq> 0"
    using assms by (simp_all add: bond_length_zero)
  moreover have "clamped_rp (crossProductVector3 (vec_sub pos1 pos2) (vec_sub pos3 pos2)) \<noteq> 0"
    using clamped_rp_positive [of "crossProductVector3 (vec_sub pos1 pos2) (vec_sub pos3 pos2)"]
    by simp
  ultimately show ?thesis
    by (simp add: angle_increments_def Let_def checked_div_def case_prod_beta)
qed

lemma angle_increments_None:
  "angle_increments pos1 pos2 pos3 idealAng quadK cubicK quarticK penticK sexticK = None
     \<longleftrightarrow> pos1 = pos2 \<or> pos3 = pos2"
proof (cases "pos1 = pos2 \<or> pos3 = pos2")
  case True
  then have "vec_dot (vec_sub pos1 pos2) (vec_sub pos1 pos2)
      * vec_dot (vec_sub pos3 pos2) (vec_sub pos3 pos2) = 0"
    by (auto simp: bond_length_zero)
  then show ?thesis
    using True by (simp add: angle_increments_def Let_def checked_div_def)
next
  case False
  then have "pos1 \<noteq> pos2" "pos3 \<noteq> pos2" by simp_all
  from angle_increments_defined [OF this] False show ?thesis
    by (simp add: Let_def)
qed

lemma angle_terms_sum_zero:
  "angle_terms deltaR0 deltaR1 pVector termA termC = (d0, d1, d2) \<Longrightarrow>
     d1 = vec_scale (- 1) (vec_add d0 d2) \<and> vec_add (vec_add d0 d1) d2 = (0, 0, 0)"
  by (auto simp: angle_terms_def Let_def vec_add_def vec_scale_def split: prod.splits)

lemma angle_increments_Some:
  assumes "angle_increments pos1 pos2 pos3 idealAng quadK cubicK quarticK penticK sexticK
      = Some ((d0, d1, d2), e)"
  shows "d1 = vec_scale (- 1) (vec_add d0 d2) \<and> vec_add (vec_add d0 d1) d2 = (0, 0, 0)"
proof -
  from assms obtain termA termC where
    "angle_terms (vec_sub pos1 pos2) (vec_sub pos3 pos2)
       (crossProductVector3 (vec_sub pos1 pos2) (vec_sub pos3 pos2)) termA termC = (d0, d1, d2)"
    by (auto simp: angle_increments_def Let_def split: option.splits prod.splits)
  then show ?thesis by (rule angle_terms_sum_zero)
qed

lemma vec_add_assoc: "vec_add (vec_add a b) c = vec_add a (vec_add b c)"
  by (cases a, cases b, cases c) (simp add: vec_add_def)

lemma vec_add_commute: "vec_add a b = vec_add b a"
  by (cases a, cases b) (simp add: vec_add_def)

lemma vec_add_zero [simp]: "vec_add a (0, 0, 0) = a" "vec_add (0, 0, 0) a = a"
  by (cases a, simp add: vec_add_def)+

lemma vec_sum_Cons [simp]: "vec_sum (v # vs) = vec_add v (vec_sum vs)"
  by (simp add: vec_sum_def)

lemma vec_sum_Nil [simp]: "vec_sum [] = (0, 0, 0)"
  by (simp add: vec_sum_def)

lemma vec_sum_add_at:
  "i < length forces \<Longrightarrow> vec_sum (add_at forces i d) = vec_add (vec_sum forces) d"
proof (induction forces arbitrary: i)
  case Nil
  then show ?case by simp
next
  case (Cons v vs)
  show ?case
  proof (cases i)
    case 0
    then show ?thesis
      by (simp add: add_at_def vec_add_assoc) (simp add: vec_add_commute)
  next
    case (Suc n)
    with Cons.prems have "n < length vs" by simp
    from Cons.IH [OF this] Suc show ?thesis
      by (simp add: add_at_def vec_add_assoc)
  qed
qed

lemma length_add_at [simp]: "length (add_at forces i d) = length forces"
  by (simp add: add_at_def)

lemma computeAmoebaAngleForce_total_force:
  assumes "computeAmoebaAngleForce bondIndex ps force forces energy = Inr (forces', energy')"
  shows "vec_sum forces' = vec_sum forces \<and> length forces' = length forces"
proof -
  let ?a = "angles force ! bondIndex"
  from assms obtain d0 d1 d2 e where
    inc: "angle_increments (ps ! particle1 ?a) (ps ! particle2 ?a)
        (ps ! particle3 ?a) (idealAngle ?a) (quadraticK ?a) (globalAngleCubic force)
        (globalAngleQuartic force) (globalAnglePentic force) (globalAngleSextic force)
      = Some ((d0, d1, d2), e)"
    and idx: "particle1 ?a < length forces" "particle2 ?a < length forces"
      "particle3 ?a < length forces"
    and res: "forces' = add_at (add_at (add_at forces (particle1 ?a) d0) (particle2 ?a) d1)
        (particle3 ?a) d2"
    by (auto simp: computeAmoebaAngleForce_def Let_def split: if_splits option.splits prod.splits)
  from angle_increments_Some [OF inc] have z: "vec_add (vec_add d0 d1) d2 = (0, 0, 0)"
    by (rule conjunct2)
  have "vec_sum forces' = vec_add (vec_sum forces) (vec_add (vec_add d0 d1) d2)"
    using idx by (simp add: res vec_sum_add_at vec_add_assoc)
  with z show ?thesis
    by (simp add: res)
qed

text \<open>
  Claim C9. The divisor \<open>rp\<close> of lines 176-177 is the clamped norm: it is at least
  \<open>1.0e-06\<close> and never zero, for every input, and it is exactly \<open>1.0e-06\<close> when the two
  bond vectors are collinear and their cross product is the zero vector. So no division
  of \<open>computeAmoebaAngleForce\<close> has a zero divisor because of \<open>rp\<close>: the increments
  have no value exactly when particle1 or particle3 is at the position of particle2, and
  for three distinct collinear particles (\<open>pos3 = pos2 + k (pos1 - pos2)\<close> with \<open>k\<close> not
  zero) all three divisions have a value.
\<close>

theorem clamped_rp_never_zero:
  "1 / 1000000 \<le> clamped_rp pVector \<and> 0 < clamped_rp pVector \<and> clamped_rp pVector \<noteq> 0
   \<and> crossProductVector3 (vec_sub pos1 pos2)
         (vec_sub (vec_add pos2 (vec_scale k (vec_sub pos1 pos2))) pos2) = (0, 0, 0)
   \<and> clamped_rp (crossProductVector3 (vec_sub pos1 pos2)
         (vec_sub (vec_add pos2 (vec_scale k (vec_sub pos1 pos2))) pos2)) = 1 / 1000000
   \<and> (angle_increments pos1 pos2 pos3 idealAng quadK cubicK quarticK penticK sexticK = None
        \<longleftrightarrow> pos1 = pos2 \<or> pos3 = pos2)
   \<and> (angle_increments pos1 pos2 (vec_add pos2 (vec_scale k (vec_sub pos1 pos2)))
          idealAng quadK cubicK quarticK penticK sexticK = None
        \<longleftrightarrow> pos1 = pos2 \<or> k = 0)
   \<and> angle_increments (0, 1, 0) (0, 0, 0) (0, 2, 0) 100 1 (1 / 10) (1 / 100) (1 / 1000)
         (1 / 10000) \<noteq> None"
proof -
  have low: "1 / 1000000 \<le> clamped_rp pVector"
    by (rule clamped_rp_lower)
  have pos: "0 < clamped_rp pVector"
    by (rule clamped_rp_positive)
  have zero: "crossProductVector3 (vec_sub pos1 pos2)
         (vec_sub (vec_add pos2 (vec_scale k (vec_sub pos1 pos2))) pos2) = (0, 0, 0)"
    by (simp add: vec_sub_add_cancel collinear_cross_zero)
  have clamp: "clamped_rp (0, 0, 0) = 1 / 1000000"
    by (simp add: clamped_rp_def vec_dot_def)
  have third: "vec_add pos2 (vec_scale k (vec_sub pos1 pos2)) = pos2 \<longleftrightarrow> pos1 = pos2 \<or> k = 0"
    by (cases pos1, cases pos2) (auto simp: vec_add_def vec_scale_def vec_sub_def)
  have collinear: "angle_increments pos1 pos2 (vec_add pos2 (vec_scale k (vec_sub pos1 pos2)))
          idealAng quadK cubicK quarticK penticK sexticK = None
        \<longleftrightarrow> pos1 = pos2 \<or> k = 0"
    unfolding angle_increments_None third by blast
  have example: "angle_increments (0, 1, 0) (0, 0, 0) (0, 2, 0) 100 1 (1 / 10) (1 / 100)
      (1 / 1000) (1 / 10000) \<noteq> None"
    by (simp add: angle_increments_None)
  from low pos zero clamp collinear example show ?thesis
    by (simp add: angle_increments_None)
qed

text \<open>
  Claim C10, as amended. In exact arithmetic, whenever particle1 and particle3 are at
  positions different from particle2's, the three increments \<open>deltaCrossP[0]\<close>,
  \<open>deltaCrossP[1]\<close> and \<open>deltaCrossP[2]\<close> have a value and sum to the zero vector, the
  middle one being minus the sum of the other two; and whenever
  \<open>computeAmoebaAngleForce\<close> yields forces, their sum is the sum of the forces it was
  given.
\<close>

theorem angle_increments_sum_zero:
  "(pos1 \<noteq> pos2 \<and> pos3 \<noteq> pos2 \<longrightarrow>
      (\<exists>d0 d1 d2 e.
          angle_increments pos1 pos2 pos3 idealAng quadK cubicK quarticK penticK sexticK
            = Some ((d0, d1, d2), e)
          \<and> d1 = vec_scale (- 1) (vec_add d0 d2)
          \<and> vec_add (vec_add d0 d1) d2 = (0, 0, 0)))
   \<and> (computeAmoebaAngleForce bondIndex ps force forces energy = Inr (forces', energy')
        \<longrightarrow> vec_sum forces' = vec_sum forces)"
proof (intro conjI impI)
  assume distinct: "pos1 \<noteq> pos2 \<and> pos3 \<noteq> pos2"
  then have "angle_increments pos1 pos2 pos3 idealAng quadK cubicK quarticK penticK sexticK
      \<noteq> None"
    by (simp add: angle_increments_None)
  then obtain d0 d1 d2 e where
    inc: "angle_increments pos1 pos2 pos3 idealAng quadK cubicK quarticK penticK sexticK
      = Some ((d0, d1, d2), e)"
    by (metis not_None_eq surj_pair)
  from angle_increments_Some [OF inc] inc
  show "\<exists>d0 d1 d2 e.
      angle_increments pos1 pos2 pos3 idealAng quadK cubicK quarticK penticK sexticK
        = Some ((d0, d1, d2), e)
      \<and> d1 = vec_scale (- 1) (vec_add d0 d2) \<and> vec_add (vec_add d0 d1) d2 = (0, 0, 0)"
    by blast
next
  assume "computeAmoebaAngleForce bondIndex ps force forces energy = Inr (forces', energy')"
  from computeAmoebaAngleForce_total_force [OF this]
  show "vec_sum forces' = vec_sum forces"
    by (rule conjunct1)
qed

lemma test_angle_defined:
  "\<exists>forces' energy'.
      computeAmoebaAngleForce 0 test_positions test_force [(0, 0, 0), (0, 0, 0), (0, 0, 0)] 0
        = Inr (forces', energy')"
proof -
  have "angle_increments (0, 1, 0) (0, 0, 0) (0, 0, 1) 100 1 (1 / 10) (1 / 100) (1 / 1000)
      (1 / 10000) \<noteq> None"
    by (simp add: angle_increments_None)
  then obtain d0 d1 d2 e where
    "angle_increments (0, 1, 0) (0, 0, 0) (0, 0, 1) 100 1 (1 / 10) (1 / 100) (1 / 1000)
      (1 / 10000) = Some ((d0, d1, d2), e)"
    by (metis not_None_eq surj_pair)
  then show ?thesis
    by (simp add: computeAmoebaAngleForce_def test_positions_def test_force_def)
qed

theorem angle_increments_sum_zero_witness:
  "((0, 1, 0) :: vec3) \<noteq> (0, 0, 0) \<and> ((0, 0, 1) :: vec3) \<noteq> (0, 0, 0)
   \<and> (\<exists>d0 d1 d2 e.
          angle_increments (0, 1, 0) (0, 0, 0) (0, 0, 1) 100 1 (1 / 10) (1 / 100) (1 / 1000)
            (1 / 10000) = Some ((d0, d1, d2), e)
          \<and> vec_add (vec_add d0 d1) d2 = (0, 0, 0))
   \<and> (\<exists>forces' energy'.
          computeAmoebaAngleForce 0 test_positions test_force
            [(0, 0, 0), (0, 0, 0), (0, 0, 0)] 0 = Inr (forces', energy')
          \<and> vec_sum forces' = (0, 0, 0))"
proof -
  have d: "((0, 1, 0) :: vec3) \<noteq> (0, 0, 0)" "((0, 0, 1) :: vec3) \<noteq> (0, 0, 0)"
    by simp_all
  from test_angle_defined obtain forces' energy' where
    r: "computeAmoebaAngleForce 0 test_positions test_force [(0, 0, 0), (0, 0, 0), (0, 0, 0)] 0
        = Inr (forces', energy')"
    by (elim exE)
  from angle_increments_sum_zero [where ?pos1.0 = "(0, 1, 0)" and ?pos2.0 = "(0, 0, 0)"
      and ?pos3.0 = "(0, 0, 1)" and idealAng = 100 and quadK = 1 and cubicK = "1 / 10"
      and quarticK = "1 / 100" and penticK = "1 / 1000" and sexticK = "1 / 10000"
      and bondIndex = 0 and ps = test_positions and force = test_force
      and forces = "[(0, 0, 0), (0, 0, 0), (0, 0, 0)]" and energy = 0 and forces' = forces'
      and energy' = energy']
  have "(\<exists>d0 d1 d2 e.
          angle_increments (0, 1, 0) (0, 0, 0) (0, 0, 1) 100 1 (1 / 10) (1 / 100) (1 / 1000)
            (1 / 10000) = Some ((d0, d1, d2), e)
          \<and> vec_add (vec_add d0 d1) d2 = (0, 0, 0))"
    and "vec_sum forces' = (0, 0, 0)"
    using d r by (blast, simp)
  with d r show ?thesis
    by blast
qed

text \<open>
  Claim C10 as stated fails for a particle on particle2: with particle1 and particle2
  both at the origin the division of line 162 is \<open>0/0\<close>, the increments are NaN in the
  code and have no value in exact arithmetic, and nothing sums to the zero vector.
\<close>

theorem angle_increments_coincident_counterexample:
  "angle_increments (0, 0, 0) (0, 0, 0) (0, 0, 1) 100 1 (1 / 10) (1 / 100) (1 / 1000)
     (1 / 10000) = None
   \<and> computeAmoebaAngleForce 0 [(0, 0, 0), (0, 0, 0), (0, 0, 1)] test_force
         [(0, 0, 0), (0, 0, 0), (0, 0, 0)] 0 = Inl NotANumber"
proof -
  have none: "angle_increments (0, 0, 0) (0, 0, 0) (0, 0, 1) 100 1 (1 / 10) (1 / 100)
      (1 / 1000) (1 / 10000) = None"
    by (simp add: angle_increments_None)
  then show ?thesis
    by (simp add: computeAmoebaAngleForce_def test_force_def)
qed

section \<open>Properties of the registration\<close>

lemma addInteraction_cutoff:
  "addInteraction unused t s = Inr s' \<Longrightarrow>
     cutoff s' = (if usesCutoff t then cutoffDistance t else unused)"
  by (auto simp: addInteraction_def split: if_splits)

lemma register_all_none:
  "snd (register_all unused ts s) = 0 \<Longrightarrow> fst (register_all unused ts s) = s"
  by (induction ts arbitrary: s) (auto split: sum.splits prod.splits)

lemma register_all_cutoff:
  "0 < snd (register_all unused ts s) \<Longrightarrow>
     \<exists>t \<in> set ts. cutoff (fst (register_all unused ts s))
        = (if usesCutoff t then cutoffDistance t else unused)"
proof (induction ts arbitrary: s)
  case Nil
  then show ?case by simp
next
  case (Cons t ts)
  show ?case
  proof (cases "addInteraction unused t s")
    case (Inl e)
    with Cons show ?thesis by auto
  next
    case (Inr s')
    show ?thesis
    proof (cases "snd (register_all unused ts s') = 0")
      case True
      then have "fst (register_all unused ts s') = s'" by (rule register_all_none)
      with Inr show ?thesis
        by (auto simp: addInteraction_cutoff split: prod.splits)
    next
      case False
      then have "\<exists>u \<in> set ts. cutoff (fst (register_all unused ts s'))
          = (if usesCutoff u then cutoffDistance u else unused)"
        using Cons.IH by simp
      with Inr show ?thesis by (auto split: prod.splits)
    qed
  qed
qed

text \<open>
  The sentinel works as long as no stored distance equals it: \<open>getHasInteractions\<close> is
  true only if a call registered its interaction, and if and only if when every stored
  distance differs from \<open>-1.0\<close>.
\<close>

lemma getHasInteractions_after_registration:
  "(getHasInteractions (fst (register_all unused ts new_utilities))
      \<longrightarrow> 0 < snd (register_all unused ts new_utilities))
   \<and> ((\<forall>t \<in> set ts. (if usesCutoff t then cutoffDistance t else unused) \<noteq> - 1) \<longrightarrow>
        (getHasInteractions (fst (register_all unused ts new_utilities))
           \<longleftrightarrow> 0 < snd (register_all unused ts new_utilities)))"
proof -
  have a: "0 < snd (register_all unused ts new_utilities)"
    if "getHasInteractions (fst (register_all unused ts new_utilities))"
  proof (rule ccontr)
    assume "\<not> 0 < snd (register_all unused ts new_utilities)"
    then have "fst (register_all unused ts new_utilities) = new_utilities"
      using register_all_none by simp
    with that show False
      by (simp add: getHasInteractions_def new_utilities_def)
  qed
  have b: "getHasInteractions (fst (register_all unused ts new_utilities))"
    if "\<forall>t \<in> set ts. (if usesCutoff t then cutoffDistance t else unused) \<noteq> - 1"
      "0 < snd (register_all unused ts new_utilities)"
    using register_all_cutoff [OF that(2)] that(1)
    by (auto simp: getHasInteractions_def)
  from a b show ?thesis by blast
qed

text \<open>
  Claim C5. \<open>getHasInteractions\<close> should return true if and only if at least one
  interaction has been registered through \<open>addInteraction\<close>, as its own comment in the
  header says ("Get whether any interactions have been added"). It does not at the
  sentinel: on a fresh engine, one call of \<open>addInteraction\<close> with a cutoff and the cutoff
  distance \<open>-1.0\<close> registers its interaction, and \<open>getHasInteractions\<close>, which compares
  the stored cutoff with \<open>-1.0\<close>, still returns false. On a fresh engine it returns
  false, and after a call with cutoff distance 1 it returns true.
\<close>

theorem getHasInteractions_sentinel_collision:
  "snd (register_all unused [sentinel_interaction] new_utilities) = 1
   \<and> \<not> getHasInteractions (fst (register_all unused [sentinel_interaction] new_utilities))
   \<and> \<not> getHasInteractions new_utilities
   \<and> getHasInteractions (fst (register_all unused [coulomb_interaction] new_utilities))"
  by (simp add: sentinel_interaction_def coulomb_interaction_def new_utilities_def
      addInteraction_def getHasInteractions_def)

section \<open>Properties of the exclusion encoding\<close>

lemma length_row_offsets [simp]: "length (row_offsets acc rows) = Suc (length rows)"
  by (induction rows arbitrary: acc) auto

lemma row_offsets_nth:
  "k \<le> length rows \<Longrightarrow> row_offsets acc rows ! k = acc + length (concat (take k rows))"
proof (induction rows arbitrary: acc k)
  case Nil
  then show ?case by simp
next
  case (Cons r rs)
  then show ?case by (cases k) auto
qed

lemma concat_nth_row:
  "y < length rs \<Longrightarrow> k < length (rs ! y) \<Longrightarrow>
     concat rs ! (length (concat (take y rs)) + k) = rs ! y ! k"
proof (induction rs arbitrary: y)
  case Nil
  then show ?case by simp
next
  case (Cons r rs)
  then show ?case by (cases y) (auto simp: nth_append)
qed

lemma concat_row_bound:
  "y < length rs \<Longrightarrow> length (concat (take y rs)) + length (rs ! y) \<le> length (concat rs)"
proof (induction rs arbitrary: y)
  case Nil
  then show ?case by simp
next
  case (Cons r rs)
  then show ?case by (cases y) auto
qed

lemma scan_row_finds:
  "start \<le> p \<Longrightarrow> p < end_row \<Longrightarrow> end_row \<le> length indices \<Longrightarrow> indices ! p = x \<Longrightarrow>
     \<exists>q. scan_row indices x start end_row = Inr q \<and> start \<le> q \<and> q < end_row \<and> indices ! q = x"
proof (induction indices x start end_row rule: scan_row.induct)
  case (1 indices x i end_row)
  show ?case
  proof (cases "indices ! i = x")
    case True
    with 1 show ?thesis by (subst scan_row.simps) auto
  next
    case False
    with 1 have "Suc i \<le> p" by (cases "i = p") auto
    with 1 False have "\<exists>q. scan_row indices x (Suc i) end_row = Inr q \<and> Suc i \<le> q
        \<and> q < end_row \<and> indices ! q = x"
      by auto
    then obtain q where "scan_row indices x (Suc i) end_row = Inr q" "Suc i \<le> q"
        "q < end_row" "indices ! q = x"
      by blast
    with 1 False show ?thesis by (subst scan_row.simps) auto
  qed
qed

lemma scan_row_result:
  "scan_row indices x start end_row = Inr q \<Longrightarrow>
     start \<le> q \<and> q < end_row \<and> q < length indices \<and> indices ! q = x"
proof (induction indices x start end_row rule: scan_row.induct)
  case (1 indices x i end_row)
  from "1.prems" show ?case
    by (subst (asm) scan_row.simps) (auto split: if_splits dest!: "1.IH" [rotated -1])
qed


lemma accumulate_masks_bit:
  "bit (accumulate_masks B ps m t) n \<longleftrightarrow>
     bit (m t) n \<or> (\<exists>p \<in> set ps. owning_tile B p = t \<and> bit_position B p = n)"
  by (induction ps arbitrary: m) (auto simp: bit_set_bit_iff)

lemma tile_mask_bit:
  "bit (tile_mask exclList B t) n \<longleftrightarrow>
     (\<exists>p \<in> set (listed_pairs exclList). owning_tile B p = t \<and> bit_position B p = n)"
  by (simp add: tile_mask_def accumulate_masks_bit)

lemma set_listed_pairs:
  "set (listed_pairs exclList) = {(i, j). i < length exclList \<and> j \<in> set (exclList ! i)}"
  by (auto simp: listed_pairs_def)

lemma row_start_tiles:
  "length (concat (take y (map (\<lambda>y. map (\<lambda>x. (x, y)) (row_columns m nb y)) [0..<nb])))
     = row_start m nb y"
  by (simp add: row_start_def length_concat take_map o_def)

lemma row_offsets_build:
  "y \<le> nb \<Longrightarrow> row_offsets 0 (map (row_columns m nb) [0..<nb]) ! y = row_start m nb y"
  by (simp add: row_offsets_nth row_start_def)

lemma row_start_Suc:
  "y < nb \<Longrightarrow> row_start m nb (Suc y) = row_start m nb y + length (row_columns m nb y)"
  by (simp add: row_start_def take_Suc_conv_app_nth)

lemma row_end_bound:
  "y < nb \<Longrightarrow> row_start m nb y + length (row_columns m nb y) \<le> length (emitted_tiles m nb)"
  using concat_row_bound [of y "map (\<lambda>y. map (\<lambda>x. (x, y)) (row_columns m nb y)) [0..<nb]"]
  by (simp add: emitted_tiles_def row_start_tiles)

lemma emitted_tiles_nth:
  "y < nb \<Longrightarrow> k < length (row_columns m nb y) \<Longrightarrow>
     emitted_tiles m nb ! (row_start m nb y + k) = (row_columns m nb y ! k, y)"
  using concat_nth_row [of y "map (\<lambda>y. map (\<lambda>x. (x, y)) (row_columns m nb y)) [0..<nb]" k]
  by (simp add: emitted_tiles_def row_start_tiles)

lemma emitted_tiles_row:
  assumes "y < nb" "row_start m nb y \<le> q" "q < row_start m nb (Suc y)"
  shows "snd (emitted_tiles m nb ! q) = y \<and> q < length (emitted_tiles m nb)"
proof -
  define k where "k = q - row_start m nb y"
  have k: "k < length (row_columns m nb y)" "q = row_start m nb y + k"
    using assms by (simp_all add: k_def row_start_Suc)
  have "q < length (emitted_tiles m nb)"
    using row_end_bound [OF assms(1), of m] k by simp
  with emitted_tiles_nth [OF assms(1) k(1)] k(2) show ?thesis
    by simp
qed

lemma scan_built_row:
  assumes "y \<le> x" "x < nb" "m (x, y) \<noteq> 0"
  shows "\<exists>q. scan_row (map fst (emitted_tiles m nb)) x (row_start m nb y) (row_start m nb (Suc y))
               = Inr q
           \<and> q < length (emitted_tiles m nb) \<and> emitted_tiles m nb ! q = (x, y)"
proof -
  have y: "y < nb" using assms by simp
  have "x \<in> set (row_columns m nb y)"
    using assms by (simp add: row_columns_def)
  then obtain k where k: "k < length (row_columns m nb y)" "row_columns m nb y ! k = x"
    by (auto simp: in_set_conv_nth)
  let ?p = "row_start m nb y + k"
  have p: "?p < row_start m nb (Suc y)"
    using k y by (simp add: row_start_Suc)
  have e: "row_start m nb (Suc y) \<le> length (map fst (emitted_tiles m nb))"
    using row_end_bound [OF y, of m] y by (simp add: row_start_Suc)
  then have "?p < length (emitted_tiles m nb)"
    using p by simp
  then have "map fst (emitted_tiles m nb) ! ?p = x"
    using emitted_tiles_nth [OF y k(1)] k(2) by simp
  from scan_row_finds [OF le_add1 p e this]
  obtain q where q: "scan_row (map fst (emitted_tiles m nb)) x (row_start m nb y)
        (row_start m nb (Suc y)) = Inr q"
      "row_start m nb y \<le> q" "q < row_start m nb (Suc y)"
      "map fst (emitted_tiles m nb) ! q = x"
    by auto
  from emitted_tiles_row [OF y q(2) q(3)]
  have r: "snd (emitted_tiles m nb ! q) = y" "q < length (emitted_tiles m nb)"
    by simp_all
  with q(4) have "emitted_tiles m nb ! q = (x, y)"
    by (simp add: prod_eq_iff)
  with q(1) r(2) show ?thesis by blast
qed

text \<open>
  Claim C2. For block indices \<open>x \<ge> y \<ge> 0\<close> of a tile with a nonempty exclusion mask,
  \<open>findExclusionIndex\<close> on the arrays the encoder built returns a position \<open>p\<close> inside
  \<open>exclusions\<close> whose entry is the mask of the tile \<open>(x, y)\<close>. For \<open>x < y\<close> it fails
  with the precondition violation, whatever the arrays are.
\<close>

theorem findExclusionIndex_build:
  fixes exclList nAtoms blockSize
  defines "es \<equiv> build exclList nAtoms blockSize"
  shows "(0 \<le> y \<and> y \<le> x \<and> nat x < numBlocks_of nAtoms blockSize
          \<and> tile_mask exclList blockSize (nat x, nat y) \<noteq> 0 \<longrightarrow>
            (\<exists>p. findExclusionIndex x y (exclusionIndices es) (exclusionRowIndices es) = Inr p
               \<and> p < length (exclusions es)
               \<and> exclusions es ! p = tile_mask exclList blockSize (nat x, nat y)))
       \<and> (x' < y' \<longrightarrow> findExclusionIndex x' y' indices rowIndices = Inl PreconditionViolation)"
proof (intro conjI impI)
  let ?nb = "numBlocks_of nAtoms blockSize"
  let ?m = "tile_mask exclList blockSize"
  assume a: "0 \<le> y \<and> y \<le> x \<and> nat x < ?nb \<and> ?m (nat x, nat y) \<noteq> 0"
  then have y: "nat y < ?nb" "nat y \<le> nat x" by linarith+
  from scan_built_row [OF y(2), of ?nb ?m] a
  obtain q where q: "scan_row (map fst (emitted_tiles ?m ?nb)) (nat x) (row_start ?m ?nb (nat y))
        (row_start ?m ?nb (Suc (nat y))) = Inr q"
      "q < length (emitted_tiles ?m ?nb)" "emitted_tiles ?m ?nb ! q = (nat x, nat y)"
    by blast
  have "findExclusionIndex x y (exclusionIndices es) (exclusionRowIndices es) = Inr q"
    using a y q(1)
    by (simp add: findExclusionIndex_def es_def build_def Let_def row_offsets_build)
  moreover have "q < length (exclusions es)" "exclusions es ! q = ?m (nat x, nat y)"
    using q by (simp_all add: es_def build_def Let_def)
  ultimately show "\<exists>p. findExclusionIndex x y (exclusionIndices es) (exclusionRowIndices es) = Inr p
      \<and> p < length (exclusions es) \<and> exclusions es ! p = ?m (nat x, nat y)"
    by blast
next
  assume "x' < y'"
  then show "findExclusionIndex x' y' indices rowIndices = Inl PreconditionViolation"
    by (simp add: findExclusionIndex_def)
qed

lemma example_build:
  "build example_exclusions 4 2
     = \<lparr> exclusions = [4, 2], exclusionIndices = [0, 1], exclusionRowIndices = [0, 2, 2] \<rparr>"
  by code_simp

lemma example_tile_mask: "tile_mask example_exclusions 2 (1, 0) = 2"
  by code_simp

lemma example_find: "findExclusionIndex 1 0 [0, 1] [0, 2, 2] = Inr 1"
  by code_simp

lemma example_numBlocks: "numBlocks_of 4 2 = 2"
  by code_simp

theorem findExclusionIndex_build_witness:
  "(0 :: int) \<le> 0 \<and> (0 :: int) \<le> 1 \<and> nat 1 < numBlocks_of 4 2
   \<and> tile_mask example_exclusions 2 (nat 1, nat 0) \<noteq> 0
   \<and> findExclusionIndex 1 0 (exclusionIndices (build example_exclusions 4 2))
         (exclusionRowIndices (build example_exclusions 4 2)) = Inr 1
   \<and> exclusions (build example_exclusions 4 2) ! 1 = tile_mask example_exclusions 2 (1, 0)
   \<and> (0 :: int) < 1
   \<and> findExclusionIndex 0 1 [0, 1] [0, 2, 2] = Inl PreconditionViolation"
  using findExclusionIndex_build [where x = 1 and y = 0 and nAtoms = 4 and blockSize = 2
      and exclList = example_exclusions and x' = 0 and y' = 1 and indices = "[0, 1]"
      and rowIndices = "[0, 2, 2]"]
  by (simp add: example_build example_tile_mask [simplified] example_find [simplified]
      example_numBlocks)

section \<open>Properties of the neighbor list\<close>

lemma discover_eq:
  "discover near cap ts (c, st)
     = (c + length (filter near ts), st @ take (cap - c) (filter near ts))"
proof (induction ts arbitrary: c st)
  case Nil
  then show ?case by simp
next
  case (Cons t ts)
  show ?case
  proof (cases "near t")
    case True
    then show ?thesis
      by (cases "c < cap") (simp_all add: Cons.IH take_Cons' Suc_diff_Suc [symmetric] del: Suc_diff_Suc)
  next
    case False
    then show ?thesis by (simp add: Cons.IH)
  qed
qed

lemma findInteractingBlocks_eq:
  "findInteractingBlocks s
     = s\<lparr> interactionCount := length (all_interacting s),
           interactingTiles := take (max_tiles s) (all_interacting s) \<rparr>"
  by (simp add: findInteractingBlocks_def discover_eq all_interacting_def)

lemma tile_interacts_dynamic [simp]:
  "tile_interacts (s\<lparr> max_tiles := m \<rparr>) = tile_interacts s"
  "tile_interacts (s\<lparr> interactionCount := c \<rparr>) = tile_interacts s"
  "tile_interacts (s\<lparr> interactingTiles := ts \<rparr>) = tile_interacts s"
  "tile_interacts (s\<lparr> interactionFlags := fs \<rparr>) = tile_interacts s"
  by (simp_all add: fun_eq_iff tile_interacts_def box_distance2_def axis_gap_def image_delta_def)

lemma tile_range_dynamic [simp]:
  "tile_range (s\<lparr> max_tiles := m \<rparr>) = tile_range s"
  "tile_range (s\<lparr> interactionCount := c \<rparr>) = tile_range s"
  "tile_range (s\<lparr> interactingTiles := ts \<rparr>) = tile_range s"
  "tile_range (s\<lparr> interactionFlags := fs \<rparr>) = tile_range s"
  by (simp_all add: tile_range_def engine_numBlocks_def engine_numAtoms_def)

lemma all_interacting_dynamic [simp]:
  "all_interacting (s\<lparr> max_tiles := m \<rparr>) = all_interacting s"
  "all_interacting (s\<lparr> interactionCount := c \<rparr>) = all_interacting s"
  "all_interacting (s\<lparr> interactingTiles := ts \<rparr>) = all_interacting s"
  "all_interacting (s\<lparr> interactionFlags := fs \<rparr>) = all_interacting s"
  by (simp_all add: all_interacting_def)

lemma settled_no_overflow:
  assumes "length (all_interacting s) \<le> max_tiles s"
  shows "settled s (findInteractingBlocks s)"
  unfolding settled_def findInteractingBlocks_eq
  by (rule exI [of _ "max_tiles s"], rule exI [of _ "interactionFlags s"])
     (use assms in simp)

lemma settled_after_growth:
  assumes "max_tiles s < length (all_interacting s)"
    "settled (updateNeighborListSize (findInteractingBlocks s)) r"
  shows "settled s r"
proof -
  let ?u = "updateNeighborListSize (findInteractingBlocks s)"
  have u: "?u = s\<lparr> max_tiles := growth_factor s * max_tiles s, interactionCount := 0,
      interactingTiles := [], interactionFlags := [] \<rparr>"
    using assms(1) by (simp add: updateNeighborListSize_def findInteractingBlocks_eq)
  from assms(2) obtain m fs where m: "length (all_interacting ?u) \<le> m"
      "r = ?u\<lparr> max_tiles := m, interactionCount := length (all_interacting ?u),
                interactingTiles := all_interacting ?u, interactionFlags := fs \<rparr>"
    unfolding settled_def by blast
  then show ?thesis
    unfolding settled_def u
    by (intro exI [of _ m] exI [of _ fs]) simp
qed

lemma loop_body_no_overflow:
  assumes "length (all_interacting s) \<le> max_tiles s"
    "(let s1 = findInteractingBlocks s
        in if interactionCount s1 \<le> max_tiles s1 then Some s1
           else loop (updateNeighborListSize s1)) = Some r"
  shows "r = findInteractingBlocks s"
proof -
  have "interactionCount (findInteractingBlocks s) \<le> max_tiles (findInteractingBlocks s)"
    using assms(1) by (simp add: findInteractingBlocks_eq)
  with assms(2) show ?thesis
    by (simp only: Let_def if_True option.inject)
qed

lemma loop_body_overflow:
  assumes "\<not> length (all_interacting s) \<le> max_tiles s"
    "(let s1 = findInteractingBlocks s
        in if interactionCount s1 \<le> max_tiles s1 then Some s1
           else loop (updateNeighborListSize s1)) = Some r"
  shows "loop (updateNeighborListSize (findInteractingBlocks s)) = Some r"
proof -
  have "\<not> interactionCount (findInteractingBlocks s) \<le> max_tiles (findInteractingBlocks s)"
    using assms(1) by (simp add: findInteractingBlocks_eq)
  with assms(2) show ?thesis
    by (simp only: Let_def if_False)
qed

lemma discovery_loop_settled:
  assumes "discovery_loop s = Some r"
  shows "settled s r"
proof (rule discovery_loop.raw_induct [where P = settled, OF _ assms])
  fix loop s r
  assume IH: "\<And>x y. loop x = Some y \<Longrightarrow> settled x y"
    and body: "(let s1 = findInteractingBlocks s
        in if interactionCount s1 \<le> max_tiles s1 then Some s1
           else loop (updateNeighborListSize s1)) = Some r"
  show "settled s r"
  proof (cases "length (all_interacting s) \<le> max_tiles s")
    case True
    then have "r = findInteractingBlocks s"
      using body by (rule loop_body_no_overflow)
    with True show ?thesis by (simp only: settled_no_overflow)
  next
    case False
    then have "loop (updateNeighborListSize (findInteractingBlocks s)) = Some r"
      using body by (rule loop_body_overflow)
    then have "settled (updateNeighborListSize (findInteractingBlocks s)) r"
      by (rule IH)
    with False show ?thesis
      by (simp add: settled_after_growth)
  qed
qed

lemma discovery_loop_total:
  "2 \<le> growth_factor s \<Longrightarrow> 1 \<le> max_tiles s \<Longrightarrow> \<exists>r. discovery_loop s = Some r"
proof (induction "length (all_interacting s) - max_tiles s" arbitrary: s rule: less_induct)
  case less
  show ?case
  proof (cases "length (all_interacting s) \<le> max_tiles s")
    case True
    then show ?thesis
      by (subst discovery_loop.simps) (simp add: Let_def findInteractingBlocks_eq)
  next
    case False
    let ?u = "updateNeighborListSize (findInteractingBlocks s)"
    have u: "?u = s\<lparr> max_tiles := growth_factor s * max_tiles s, interactionCount := 0,
        interactingTiles := [], interactionFlags := [] \<rparr>"
      using False by (simp add: updateNeighborListSize_def findInteractingBlocks_eq)
    have "2 * max_tiles s \<le> growth_factor s * max_tiles s"
      using less.prems(1) by (rule mult_le_mono1)
    with less.prems(2) have grow: "max_tiles s < growth_factor s * max_tiles s"
      by linarith
    have "length (all_interacting s) - growth_factor s * max_tiles s
        < length (all_interacting s) - max_tiles s"
      using False grow by linarith
    then have "length (all_interacting ?u) - max_tiles ?u
        < length (all_interacting s) - max_tiles s"
      by (simp add: u)
    moreover have "2 \<le> growth_factor ?u" "1 \<le> max_tiles ?u"
      using less.prems grow by (simp_all add: u)
    ultimately have "\<exists>r. discovery_loop ?u = Some r"
      by (rule less.hyps)
    with False show ?thesis
      by (subst discovery_loop.simps) (simp add: Let_def findInteractingBlocks_eq)
  qed
qed


lemma engine_numBlocks_dynamic [simp]:
  "engine_numBlocks (s\<lparr> max_tiles := m \<rparr>) = engine_numBlocks s"
  "engine_numBlocks (s\<lparr> interactionCount := c \<rparr>) = engine_numBlocks s"
  "engine_numBlocks (s\<lparr> interactingTiles := ts \<rparr>) = engine_numBlocks s"
  "engine_numBlocks (s\<lparr> interactionFlags := fs \<rparr>) = engine_numBlocks s"
  "engine_numBlocks (s\<lparr> blockCenter := cs \<rparr>) = engine_numBlocks s"
  "engine_numBlocks (s\<lparr> blockBoundingBox := bs \<rparr>) = engine_numBlocks s"
  by (simp_all add: engine_numBlocks_def engine_numAtoms_def)

lemma wrapped_coordinate_dynamic [simp]:
  "wrapped_coordinate (s\<lparr> max_tiles := m \<rparr>) = wrapped_coordinate s"
  "wrapped_coordinate (s\<lparr> interactionCount := c \<rparr>) = wrapped_coordinate s"
  "wrapped_coordinate (s\<lparr> interactingTiles := ts \<rparr>) = wrapped_coordinate s"
  "wrapped_coordinate (s\<lparr> interactionFlags := fs \<rparr>) = wrapped_coordinate s"
  "wrapped_coordinate (s\<lparr> blockCenter := cs \<rparr>) = wrapped_coordinate s"
  "wrapped_coordinate (s\<lparr> blockBoundingBox := bs \<rparr>) = wrapped_coordinate s"
  by (simp_all add: fun_eq_iff wrapped_coordinate_def)

lemma axis_center_dynamic [simp]:
  "axis_center (s\<lparr> max_tiles := m \<rparr>) = axis_center s"
  "axis_center (s\<lparr> interactionCount := c \<rparr>) = axis_center s"
  "axis_center (s\<lparr> interactingTiles := ts \<rparr>) = axis_center s"
  "axis_center (s\<lparr> interactionFlags := fs \<rparr>) = axis_center s"
  "axis_center (s\<lparr> blockCenter := cs \<rparr>) = axis_center s"
  "axis_center (s\<lparr> blockBoundingBox := bs \<rparr>) = axis_center s"
  by (simp_all add: fun_eq_iff axis_center_def wrapped_coordinate_def block_atoms_def
      engine_numAtoms_def)

lemma axis_extent_dynamic [simp]:
  "axis_extent (s\<lparr> max_tiles := m \<rparr>) = axis_extent s"
  "axis_extent (s\<lparr> interactionCount := c \<rparr>) = axis_extent s"
  "axis_extent (s\<lparr> interactingTiles := ts \<rparr>) = axis_extent s"
  "axis_extent (s\<lparr> interactionFlags := fs \<rparr>) = axis_extent s"
  "axis_extent (s\<lparr> blockCenter := cs \<rparr>) = axis_extent s"
  "axis_extent (s\<lparr> blockBoundingBox := bs \<rparr>) = axis_extent s"
  by (simp_all add: fun_eq_iff axis_extent_def wrapped_coordinate_def block_atoms_def
      engine_numAtoms_def)

lemma tile_exclusions_dynamic [simp]:
  "tile_exclusions (s\<lparr> max_tiles := m \<rparr>) = tile_exclusions s"
  "tile_exclusions (s\<lparr> interactionCount := c \<rparr>) = tile_exclusions s"
  "tile_exclusions (s\<lparr> interactingTiles := ts \<rparr>) = tile_exclusions s"
  "tile_exclusions (s\<lparr> interactionFlags := fs \<rparr>) = tile_exclusions s"
  "tile_exclusions (s\<lparr> blockCenter := cs \<rparr>) = tile_exclusions s"
  "tile_exclusions (s\<lparr> blockBoundingBox := bs \<rparr>) = tile_exclusions s"
  by (simp_all add: fun_eq_iff tile_exclusions_def split: sum.splits)

lemma within_cutoff_dynamic [simp]:
  "within_cutoff (s\<lparr> max_tiles := m \<rparr>) = within_cutoff s"
  "within_cutoff (s\<lparr> interactionCount := c \<rparr>) = within_cutoff s"
  "within_cutoff (s\<lparr> interactingTiles := ts \<rparr>) = within_cutoff s"
  "within_cutoff (s\<lparr> interactionFlags := fs \<rparr>) = within_cutoff s"
  "within_cutoff (s\<lparr> blockCenter := cs \<rparr>) = within_cutoff s"
  "within_cutoff (s\<lparr> blockBoundingBox := bs \<rparr>) = within_cutoff s"
  by (simp_all add: fun_eq_iff within_cutoff_def pair_distance2_def pair_delta_def image_delta_def)

lemma pair_on_dynamic [simp]:
  "pair_on (s\<lparr> max_tiles := m \<rparr>) = pair_on s"
  "pair_on (s\<lparr> interactionCount := c \<rparr>) = pair_on s"
  "pair_on (s\<lparr> interactingTiles := ts \<rparr>) = pair_on s"
  "pair_on (s\<lparr> interactionFlags := fs \<rparr>) = pair_on s"
  "pair_on (s\<lparr> blockCenter := cs \<rparr>) = pair_on s"
  "pair_on (s\<lparr> blockBoundingBox := bs \<rparr>) = pair_on s"
  by (simp_all add: fun_eq_iff pair_on_def engine_numAtoms_def)

lemma tile_flags_dynamic [simp]:
  "tile_flags (s\<lparr> max_tiles := m \<rparr>) = tile_flags s"
  "tile_flags (s\<lparr> interactionCount := c \<rparr>) = tile_flags s"
  "tile_flags (s\<lparr> interactingTiles := ts \<rparr>) = tile_flags s"
  "tile_flags (s\<lparr> interactionFlags := fs \<rparr>) = tile_flags s"
  "tile_flags (s\<lparr> blockCenter := cs \<rparr>) = tile_flags s"
  "tile_flags (s\<lparr> blockBoundingBox := bs \<rparr>) = tile_flags s"
  by (simp_all add: fun_eq_iff tile_flags_def)

lemma discovery_loop_fixed:
  assumes "interactionCount s = length (all_interacting s)"
    "interactingTiles s = all_interacting s" "interactionCount s \<le> max_tiles s"
  shows "discovery_loop s = Some s"
proof -
  have "findInteractingBlocks s = s"
    using assms by (simp add: findInteractingBlocks_eq)
  with assms(3) show ?thesis
    by (subst discovery_loop.simps) (simp add: Let_def)
qed

lemma prepareInteractions_shape:
  assumes "prepareInteractions s = Some s1"
  shows "\<exists>m. length (all_interacting (findBlockBounds s)) \<le> m
     \<and> s1 = (findBlockBounds s)\<lparr> max_tiles := m,
            interactionCount := length (all_interacting (findBlockBounds s)),
            interactingTiles := all_interacting (findBlockBounds s),
            interactionFlags := map (tile_flags s) (all_interacting (findBlockBounds s)) \<rparr>"
proof -
  from assms obtain r where r: "discovery_loop (findBlockBounds s) = Some r"
      "s1 = findInteractionsWithinBlocks r"
    by (auto simp: prepareInteractions_def split: option.splits)
  from discovery_loop_settled [OF r(1)] obtain m fs where
    m: "length (all_interacting (findBlockBounds s)) \<le> m"
      "r = (findBlockBounds s)\<lparr> max_tiles := m,
          interactionCount := length (all_interacting (findBlockBounds s)),
          interactingTiles := all_interacting (findBlockBounds s), interactionFlags := fs \<rparr>"
    unfolding settled_def by blast
  have "tile_flags (findBlockBounds s) = tile_flags s"
    by (simp add: findBlockBounds_def)
  with r(2) m show ?thesis
    by (intro exI [of _ m]) (simp add: findInteractionsWithinBlocks_def)
qed

lemma findBlockBounds_settled:
  "findBlockBounds ((findBlockBounds s)\<lparr> max_tiles := m, interactionCount := c,
       interactingTiles := ts, interactionFlags := fs \<rparr>)
     = (findBlockBounds s)\<lparr> max_tiles := m, interactionCount := c, interactingTiles := ts,
          interactionFlags := fs \<rparr>"
  by (simp add: findBlockBounds_def)

lemma tile_flags_findBlockBounds: "tile_flags (findBlockBounds s) = tile_flags s"
  by (simp add: findBlockBounds_def)

lemma discovery_loop_settled_again:
  "length (all_interacting b) \<le> m \<Longrightarrow>
     discovery_loop (b\<lparr> max_tiles := m, interactionCount := length (all_interacting b),
        interactingTiles := all_interacting b, interactionFlags := fs \<rparr>)
     = Some (b\<lparr> max_tiles := m, interactionCount := length (all_interacting b),
        interactingTiles := all_interacting b, interactionFlags := fs \<rparr>)"
  by (rule discovery_loop_fixed) simp_all

lemma findInteractionsWithinBlocks_again:
  "findInteractionsWithinBlocks (b\<lparr> max_tiles := m, interactionCount := c,
       interactingTiles := ts, interactionFlags := map (tile_flags b) ts \<rparr>)
     = b\<lparr> max_tiles := m, interactionCount := c, interactingTiles := ts,
          interactionFlags := map (tile_flags b) ts \<rparr>"
  by (simp add: findInteractionsWithinBlocks_def)

lemma prepareInteractions_again:
  assumes "prepareInteractions s = Some s1"
  shows "prepareInteractions s1 = Some s1"
proof -
  let ?b = "findBlockBounds s"
  from prepareInteractions_shape [OF assms] obtain m where
    m: "length (all_interacting ?b) \<le> m"
      "s1 = ?b\<lparr> max_tiles := m, interactionCount := length (all_interacting ?b),
            interactingTiles := all_interacting ?b,
            interactionFlags := map (tile_flags ?b) (all_interacting ?b) \<rparr>"
    by (auto simp: tile_flags_findBlockBounds)
  have "prepareInteractions (?b\<lparr> max_tiles := m,
            interactionCount := length (all_interacting ?b),
            interactingTiles := all_interacting ?b,
            interactionFlags := map (tile_flags ?b) (all_interacting ?b) \<rparr>)
      = Some (?b\<lparr> max_tiles := m, interactionCount := length (all_interacting ?b),
            interactingTiles := all_interacting ?b,
            interactionFlags := map (tile_flags ?b) (all_interacting ?b) \<rparr>)"
    unfolding prepareInteractions_def findBlockBounds_settled
      discovery_loop_settled_again [OF m(1)]
    by (simp only: option.case findInteractionsWithinBlocks_again)
  then show ?thesis
    by (simp only: m(2) [symmetric])
qed

lemma prepareInteractions_total:
  assumes "2 \<le> growth_factor s" "1 \<le> max_tiles s"
  shows "\<exists>s1. prepareInteractions s = Some s1"
proof -
  have "\<exists>r. discovery_loop (findBlockBounds s) = Some r"
    using assms by (intro discovery_loop_total) (simp_all add: findBlockBounds_def)
  then show ?thesis
    by (auto simp: prepareInteractions_def)
qed

lemma example_prepareInteractions: "prepareInteractions example_engine = Some example_prepared"
  by code_simp

lemma example_all_interacting:
  "all_interacting (findBlockBounds example_engine) = [(0, 0), (1, 0), (1, 1)]"
  by code_simp

text \<open>
  Claim C4. When \<open>prepareInteractions\<close> has returned, a second call on the state it
  left, with the particles where they were, returns as well and leaves the very same
  state: \<open>interactingTiles\<close>, \<open>interactionFlags\<close> and the interaction count are
  identical after both calls. The first call does return whenever the growth factor is at
  least 2 and the capacity at least 1.
\<close>

theorem prepareInteractions_idempotent:
  "(prepareInteractions s = Some s1 \<longrightarrow>
      (\<exists>s2. prepareInteractions s1 = Some s2 \<and> interactingTiles s2 = interactingTiles s1
         \<and> interactionFlags s2 = interactionFlags s1
         \<and> interactionCount s2 = interactionCount s1 \<and> s2 = s1))
   \<and> (2 \<le> growth_factor s \<and> 1 \<le> max_tiles s \<longrightarrow> (\<exists>s1. prepareInteractions s = Some s1))"
  using prepareInteractions_again [of s s1] prepareInteractions_total [of s]
  by simp

theorem prepareInteractions_idempotent_witness:
  "prepareInteractions example_engine = Some example_prepared
   \<and> prepareInteractions example_prepared = Some example_prepared
   \<and> interactingTiles example_prepared = [(0, 0), (1, 0), (1, 1)]
   \<and> interactionFlags example_prepared = [0, 2, 0]
   \<and> 2 \<le> growth_factor example_engine \<and> 1 \<le> max_tiles example_engine"
  using prepareInteractions_idempotent [of example_engine example_prepared]
    example_prepareInteractions
  by (simp add: example_prepared_def example_engine_def)

text \<open>
  Claim C3. When the true number of interacting tiles exceeds the capacity, the
  discovery loop grows the arrays through \<open>updateNeighborListSize\<close> and runs the
  discovery again until it fits, and it ends. The tiles it ends with are all the
  interacting tiles of the range, the same list that a run with a capacity no pass can
  exceed finds without growing, and every tile the overflowed first pass had stored is
  among them.
\<close>

theorem growth_keeps_interacting_tiles:
  assumes "2 \<le> growth_factor s" "1 \<le> max_tiles s"
    "max_tiles s < length (all_interacting s)"
  shows "\<exists>r. discovery_loop s = Some r
     \<and> discovery_loop (updateNeighborListSize (findInteractingBlocks s)) = Some r
     \<and> interactingTiles r = all_interacting s
     \<and> interactionCount r = length (all_interacting s)
     \<and> interactionCount r \<le> max_tiles r
     \<and> set (interactingTiles (findInteractingBlocks s)) \<subseteq> set (interactingTiles r)
     \<and> (\<forall>cap. length (tile_range s) \<le> cap \<longrightarrow>
          (\<exists>u. discovery_loop (s\<lparr> max_tiles := cap \<rparr>) = Some u \<and> max_tiles u = cap
             \<and> interactingTiles u = interactingTiles r))"
proof -
  from discovery_loop_total [OF assms(1,2)] obtain r where r: "discovery_loop s = Some r"
    by blast
  from discovery_loop_settled [OF r] obtain m fs where
    m: "length (all_interacting s) \<le> m"
      "r = s\<lparr> max_tiles := m, interactionCount := length (all_interacting s),
          interactingTiles := all_interacting s, interactionFlags := fs \<rparr>"
    unfolding settled_def by blast
  have again: "discovery_loop (updateNeighborListSize (findInteractingBlocks s)) = Some r"
    using r assms(3) by (subst (asm) discovery_loop.simps) (simp add: Let_def findInteractingBlocks_eq)
  have kept: "set (interactingTiles (findInteractingBlocks s)) \<subseteq> set (interactingTiles r)"
    by (simp add: findInteractingBlocks_eq m(2) set_take_subset)
  have unbounded: "\<exists>u. discovery_loop (s\<lparr> max_tiles := cap \<rparr>) = Some u \<and> max_tiles u = cap
      \<and> interactingTiles u = interactingTiles r" if "length (tile_range s) \<le> cap" for cap
  proof -
    have "length (all_interacting s) \<le> cap"
      using that by (simp add: all_interacting_def le_trans [OF length_filter_le])
    then have "discovery_loop (s\<lparr> max_tiles := cap \<rparr>)
        = Some (findInteractingBlocks (s\<lparr> max_tiles := cap \<rparr>))"
      by (subst discovery_loop.simps) (simp add: Let_def findInteractingBlocks_eq)
    moreover have "interactingTiles (findInteractingBlocks (s\<lparr> max_tiles := cap \<rparr>))
        = interactingTiles r"
      using \<open>length (all_interacting s) \<le> cap\<close> by (simp add: findInteractingBlocks_eq m(2))
    ultimately show ?thesis
      by (simp add: findInteractingBlocks_eq)
  qed
  from r again kept unbounded m show ?thesis
    by (intro exI [of _ r]) simp
qed

theorem growth_keeps_interacting_tiles_witness:
  "2 \<le> growth_factor (findBlockBounds example_engine)
   \<and> 1 \<le> max_tiles (findBlockBounds example_engine)
   \<and> max_tiles (findBlockBounds example_engine)
       < length (all_interacting (findBlockBounds example_engine))
   \<and> (\<exists>r. discovery_loop (findBlockBounds example_engine) = Some r
          \<and> interactingTiles r = [(0, 0), (1, 0), (1, 1)] \<and> interactionCount r = 3)"
proof -
  have h: "2 \<le> growth_factor (findBlockBounds example_engine)"
    "1 \<le> max_tiles (findBlockBounds example_engine)"
    "max_tiles (findBlockBounds example_engine)
       < length (all_interacting (findBlockBounds example_engine))"
    by (simp_all add: example_all_interacting) (simp_all add: findBlockBounds_def example_engine_def)
  from growth_keeps_interacting_tiles [OF h] obtain r where
    "discovery_loop (findBlockBounds example_engine) = Some r"
    "interactingTiles r = all_interacting (findBlockBounds example_engine)"
    "interactionCount r = length (all_interacting (findBlockBounds example_engine))"
    by blast
  with h show ?thesis
    by (simp add: example_all_interacting)
qed

section \<open>Properties of the pair flags\<close>

lemma fold_min_le_init: "fold min xs (a :: real) \<le> a"
proof (induction xs arbitrary: a)
  case Nil
  then show ?case by simp
next
  case (Cons y ys)
  have "fold min ys (min y a) \<le> min y a" by (rule Cons.IH)
  then show ?case by simp
qed

lemma fold_min_le_member: "x \<in> set xs \<Longrightarrow> fold min xs (a :: real) \<le> x"
proof (induction xs arbitrary: a)
  case Nil
  then show ?case by simp
next
  case (Cons y ys)
  show ?case
  proof (cases "x = y")
    case True
    have "fold min ys (min y a) \<le> min y a" by (rule fold_min_le_init)
    with True show ?thesis by simp
  next
    case False
    with Cons.prems have "x \<in> set ys" by simp
    then have "fold min ys (min y a) \<le> x" by (rule Cons.IH)
    then show ?thesis by simp
  qed
qed

lemma fold_max_ge_init: "(a :: real) \<le> fold max xs a"
proof (induction xs arbitrary: a)
  case Nil
  then show ?case by simp
next
  case (Cons y ys)
  have "max y a \<le> fold max ys (max y a)" by (rule Cons.IH)
  then show ?case by simp
qed

lemma fold_max_ge_member: "x \<in> set xs \<Longrightarrow> (x :: real) \<le> fold max xs a"
proof (induction xs arbitrary: a)
  case Nil
  then show ?case by simp
next
  case (Cons y ys)
  show ?case
  proof (cases "x = y")
    case True
    have "max y a \<le> fold max ys (max y a)" by (rule fold_max_ge_init)
    with True show ?thesis by simp
  next
    case False
    with Cons.prems have "x \<in> set ys" by simp
    then have "x \<le> fold max ys (max y a)" by (rule Cons.IH)
    then show ?thesis by simp
  qed
qed

lemma reduce_min_le: "x \<in> set xs \<Longrightarrow> reduce_min xs \<le> x"
  by (cases xs) (auto simp: reduce_min_def fold_min_le_init fold_min_le_member)

lemma reduce_max_ge: "x \<in> set xs \<Longrightarrow> x \<le> reduce_max xs"
  by (cases xs) (auto simp: reduce_max_def fold_max_ge_init fold_max_ge_member)

lemma atom_in_block:
  assumes "i < engine_numAtoms s" "0 < blockSize s"
  shows "i \<in> set (block_atoms s (i div blockSize s))"
proof -
  have "i div blockSize s * blockSize s \<le> i"
    by simp
  moreover have "i < (i div blockSize s + 1) * blockSize s"
    using assms(2) by (simp add: dividend_less_div_times add.commute)
  ultimately show ?thesis
    using assms(1) by (simp add: block_atoms_def)
qed

lemma coordinate_in_box:
  assumes "i < engine_numAtoms s" "0 < blockSize s"
  shows "\<bar>wrapped_coordinate s k i - axis_center s (i div blockSize s) k\<bar>
           \<le> axis_extent s (i div blockSize s) k"
proof -
  let ?xs = "map (wrapped_coordinate s k) (block_atoms s (i div blockSize s))"
  have "wrapped_coordinate s k i \<in> set ?xs"
    using atom_in_block [OF assms] by simp
  then have "reduce_min ?xs \<le> wrapped_coordinate s k i"
      "wrapped_coordinate s k i \<le> reduce_max ?xs"
    by (rule reduce_min_le, rule reduce_max_ge)
  then show ?thesis
    by (simp add: axis_center_def axis_extent_def Let_def abs_le_iff field_simps)
qed

lemma nearest_image_range:
  assumes "0 < b"
  shows "- b / 2 \<le> nearest_image b d \<and> nearest_image b d < b / 2"
proof -
  define N :: real where "N = of_int \<lfloor>d / b + 1 / 2\<rfloor>"
  have "N \<le> d / b + 1 / 2" "d / b + 1 / 2 < N + 1"
    unfolding N_def by linarith+
  then have "N * b \<le> (d / b + 1 / 2) * b" "(d / b + 1 / 2) * b < (N + 1) * b"
    using assms by (simp_all only: mult_le_cancel_right mult_less_cancel_right) simp_all
  moreover have "(d / b + 1 / 2) * b = d + b / 2"
    using assms by (simp add: field_simps)
  moreover have "(N + 1) * b = N * b + b"
    by (simp add: algebra_simps)
  ultimately have "N * b \<le> d + b / 2" "d + b / 2 < N * b + b"
    by simp_all
  moreover have "nearest_image b d = d - N * b"
    by (simp add: nearest_image_def N_def)
  ultimately show ?thesis
    by linarith
qed

lemma nearest_image_minimal:
  assumes "0 < b"
  shows "\<bar>nearest_image b d\<bar> \<le> \<bar>d + of_int m * b\<bar>"
proof -
  define r where "r = nearest_image b d"
  define K :: int where "K = m + \<lfloor>d / b + 1 / 2\<rfloor>"
  define P :: real where "P = of_int K * b"
  have r: "- b / 2 \<le> r" "r < b / 2"
    using nearest_image_range [OF assms, of d] by (simp_all add: r_def)
  have eq: "d + of_int m * b = r + P"
    by (simp add: r_def P_def K_def nearest_image_def algebra_simps)
  have "\<bar>r\<bar> \<le> \<bar>r + P\<bar>"
  proof (cases "K = 0")
    case True
    then show ?thesis by (simp add: P_def)
  next
    case False
    then consider "1 \<le> K" | "K \<le> - 1" by linarith
    then show ?thesis
    proof cases
      case 1
      then have "(1 :: real) \<le> of_int K" by simp
      then have "1 * b \<le> of_int K * b"
        using assms by (intro mult_right_mono) simp_all
      then have "b \<le> P" by (simp add: P_def)
      with r show ?thesis by linarith
    next
      case 2
      then have "of_int K \<le> (- 1 :: real)" by (metis of_int_le_iff of_int_minus of_int_1)
      then have "of_int K * b \<le> (- 1) * b"
        using assms by (intro mult_right_mono) simp_all
      then have "P \<le> - b" by (simp add: P_def)
      with r show ?thesis by linarith
    qed
  qed
  then show ?thesis
    by (simp add: eq r_def)
qed

lemma div_less_numBlocks:
  assumes "i < n" "0 < B"
  shows "i div B < numBlocks_of n B"
proof -
  have "i + B \<le> n + B - 1" using assms by linarith
  then have "(i + B) div B \<le> (n + B - 1) div B" by (rule div_le_mono)
  moreover have "(i + B) div B = i div B + 1" using assms(2) by simp
  ultimately show ?thesis by (simp add: numBlocks_of_def)
qed

lemma axis_cases: "k \<le> 2 \<Longrightarrow> k = 0 \<or> k = 1 \<or> k = (2 :: nat)"
  by linarith

lemma blockCenter_findBlockBounds:
  assumes "b < engine_numBlocks s" "k \<le> 2"
  shows "axis k (blockCenter (findBlockBounds s) ! b) = axis_center s b k"
  using assms(1) axis_cases [OF assms(2)]
  by (auto simp: findBlockBounds_def axis_def)

lemma blockBoundingBox_findBlockBounds:
  assumes "b < engine_numBlocks s" "k \<le> 2"
  shows "axis k (blockBoundingBox (findBlockBounds s) ! b) = axis_extent s b k"
  using assms(1) axis_cases [OF assms(2)]
  by (auto simp: findBlockBounds_def axis_def)

lemma image_delta_findBlockBounds: "image_delta (findBlockBounds s) = image_delta s"
  by (simp add: fun_eq_iff image_delta_def findBlockBounds_def)

lemma axis_gap_findBlockBounds:
  assumes "x < engine_numBlocks s" "y < engine_numBlocks s" "k \<le> 2"
  shows "axis_gap (findBlockBounds s) k x y
     = max 0 (\<bar>image_delta s k (axis_center s x k - axis_center s y k)\<bar>
              - axis_extent s x k - axis_extent s y k)"
  by (simp add: axis_gap_def image_delta_findBlockBounds blockCenter_findBlockBounds [OF _ assms(3)]
      blockBoundingBox_findBlockBounds [OF _ assms(3)] assms(1,2))

lemma centers_close_to_pair:
  assumes "i < engine_numAtoms s" "j < engine_numAtoms s" "0 < blockSize s"
    "uses_periodic s \<longrightarrow> 0 < axis k (periodicBoxSize s)"
  shows "\<bar>image_delta s k (axis_center s (i div blockSize s) k
                              - axis_center s (j div blockSize s) k)\<bar>
     \<le> \<bar>pair_delta s k i j\<bar> + axis_extent s (i div blockSize s) k
         + axis_extent s (j div blockSize s) k"
proof -
  define cx where "cx = axis_center s (i div blockSize s) k"
  define cy where "cy = axis_center s (j div blockSize s) k"
  define hx where "hx = axis_extent s (i div blockSize s) k"
  define hy where "hy = axis_extent s (j div blockSize s) k"
  define wi where "wi = wrapped_coordinate s k i"
  define wj where "wj = wrapped_coordinate s k j"
  have box: "\<bar>wi - cx\<bar> \<le> hx" "\<bar>wj - cy\<bar> \<le> hy"
    using coordinate_in_box [OF assms(1,3), of k] coordinate_in_box [OF assms(2,3), of k]
    by (simp_all add: cx_def cy_def hx_def hy_def wi_def wj_def)
  have "\<bar>image_delta s k (cx - cy)\<bar> \<le> \<bar>pair_delta s k i j\<bar> + hx + hy"
  proof (cases "uses_periodic s")
    case False
    then have "image_delta s k (cx - cy) = cx - cy" "pair_delta s k i j = wi - wj"
      by (simp_all add: image_delta_def pair_delta_def wi_def wj_def wrapped_coordinate_def)
    with box show ?thesis by linarith
  next
    case True
    define b where "b = axis k (periodicBoxSize s)"
    define p where "p = axis k (positions s ! i) - axis k (positions s ! j)"
    define m :: int where "m = \<lfloor>axis k (positions s ! i) / b\<rfloor>
        - \<lfloor>axis k (positions s ! j) / b\<rfloor> - \<lfloor>p / b + 1 / 2\<rfloor>"
    have b: "0 < b" using True assms(4) by (simp add: b_def)
    have d: "pair_delta s k i j = (wi - wj) + of_int m * b"
      using True
      by (simp add: pair_delta_def image_delta_def nearest_image_def wi_def wj_def
          wrapped_coordinate_def fold_into_cell_def b_def p_def m_def algebra_simps)
    have "image_delta s k (cx - cy) = nearest_image b (cx - cy)"
      using True by (simp add: image_delta_def b_def)
    moreover have "\<bar>nearest_image b (cx - cy)\<bar> \<le> \<bar>(cx - cy) + of_int m * b\<bar>"
      by (rule nearest_image_minimal [OF b])
    moreover have "\<bar>(cx - cy) + of_int m * b\<bar> \<le> \<bar>(wi - wj) + of_int m * b\<bar> + hx + hy"
      using box by linarith
    ultimately show ?thesis
      by (simp add: d)
  qed
  then show ?thesis
    by (simp add: cx_def cy_def hx_def hy_def)
qed

lemma axis_gap_le_pair_delta:
  assumes "i < engine_numAtoms s" "j < engine_numAtoms s" "0 < blockSize s"
    "uses_periodic s \<longrightarrow> 0 < axis k (periodicBoxSize s)" "k \<le> 2"
  shows "0 \<le> axis_gap (findBlockBounds s) k (i div blockSize s) (j div blockSize s)
     \<and> axis_gap (findBlockBounds s) k (i div blockSize s) (j div blockSize s)
         \<le> \<bar>pair_delta s k i j\<bar>"
proof -
  have x: "i div blockSize s < engine_numBlocks s" "j div blockSize s < engine_numBlocks s"
    using assms(1-3) by (simp_all add: engine_numBlocks_def div_less_numBlocks)
  show ?thesis
    using centers_close_to_pair [OF assms(1-4)]
    by (simp add: axis_gap_findBlockBounds [OF x assms(5)])
qed

lemma square_le_square:
  fixes g d :: real
  assumes "0 \<le> g \<and> g \<le> \<bar>d\<bar>"
  shows "g * g \<le> d * d"
proof -
  have "g * g \<le> \<bar>d\<bar> * \<bar>d\<bar>"
    using assms by (intro mult_mono) simp_all
  then show ?thesis by simp
qed

lemma box_distance2_le_pair_distance2:
  assumes "i < engine_numAtoms s" "j < engine_numAtoms s" "0 < blockSize s"
    "uses_periodic s \<longrightarrow> 0 < axis 0 (periodicBoxSize s)
       \<and> 0 < axis 1 (periodicBoxSize s) \<and> 0 < axis 2 (periodicBoxSize s)"
  shows "box_distance2 (findBlockBounds s) (i div blockSize s) (j div blockSize s)
     \<le> pair_distance2 s i j"
proof -
  have "axis_gap (findBlockBounds s) k (i div blockSize s) (j div blockSize s)
        * axis_gap (findBlockBounds s) k (i div blockSize s) (j div blockSize s)
      \<le> pair_delta s k i j * pair_delta s k i j" if "k = 0 \<or> k = 1 \<or> k = 2" for k
  proof -
    have "uses_periodic s \<longrightarrow> 0 < axis k (periodicBoxSize s)" "k \<le> 2"
      using that assms(4) by auto
    from axis_gap_le_pair_delta [OF assms(1-3) this] show ?thesis
      by (rule square_le_square)
  qed
  from this [of 0] this [of 1] this [of 2] show ?thesis
    unfolding box_distance2_def pair_distance2_def by linarith
qed

lemma within_cutoff_tile_interacts:
  assumes "i < engine_numAtoms s" "j < engine_numAtoms s" "0 < blockSize s"
    "uses_periodic s \<longrightarrow> 0 < axis 0 (periodicBoxSize s)
       \<and> 0 < axis 1 (periodicBoxSize s) \<and> 0 < axis 2 (periodicBoxSize s)"
    "within_cutoff s i j"
  shows "tile_interacts (findBlockBounds s) (i div blockSize s, j div blockSize s)"
proof (cases "uses_cutoff s")
  case False
  then show ?thesis by (simp add: tile_interacts_def findBlockBounds_def)
next
  case True
  with assms(5) have "pair_distance2 s i j \<le> cutoff_distance s * cutoff_distance s"
    by (simp add: within_cutoff_def)
  with box_distance2_le_pair_distance2 [OF assms(1-4)]
  have "box_distance2 (findBlockBounds s) (i div blockSize s) (j div blockSize s)
      \<le> cutoff_distance s * cutoff_distance s"
    by linarith
  moreover have "cutoff_distance (findBlockBounds s) = cutoff_distance s"
    by (simp add: findBlockBounds_def)
  ultimately show ?thesis
    by (simp add: tile_interacts_def)
qed

lemma in_all_tiles: "(x, y) \<in> set (all_tiles nb) \<longleftrightarrow> y \<le> x \<and> x < nb"
proof
  assume "(x, y) \<in> set (all_tiles nb)"
  then show "y \<le> x \<and> x < nb" by (auto simp: all_tiles_def)
next
  assume a: "y \<le> x \<and> x < nb"
  then have "map (\<lambda>x. (x, y)) [y..<nb] \<in> set (map (\<lambda>y. map (\<lambda>x. (x, y)) [y..<nb]) [0..<nb])"
    by simp
  moreover have "(x, y) \<in> set (map (\<lambda>x. (x, y)) [y..<nb])"
    using a by simp
  ultimately show "(x, y) \<in> set (all_tiles nb)"
    unfolding all_tiles_def set_concat by blast
qed

lemma distinct_all_tiles: "distinct (all_tiles nb)"
  unfolding all_tiles_def
proof (rule distinct_concat)
  have "inj_on (\<lambda>y. map (\<lambda>x. (x, y)) [y..<nb]) (set [0..<nb])"
  proof (rule inj_onI)
    fix y y' assume y: "y \<in> set [0..<nb]" "y' \<in> set [0..<nb]"
      and eq: "map (\<lambda>x. (x, y)) [y..<nb] = map (\<lambda>x. (x, y')) [y'..<nb]"
    from y(1) have "(y, y) \<in> set (map (\<lambda>x. (x, y)) [y..<nb])" by simp
    with eq have "(y, y) \<in> set (map (\<lambda>x. (x, y')) [y'..<nb])" by simp
    then show "y = y'" by auto
  qed
  then show "distinct (map (\<lambda>y. map (\<lambda>x. (x, y)) [y..<nb]) [0..<nb])"
    by (simp add: distinct_map)
next
  fix ys assume "ys \<in> set (map (\<lambda>y. map (\<lambda>x. (x, y)) [y..<nb]) [0..<nb])"
  then show "distinct ys" by (auto simp: distinct_map inj_on_def)
next
  fix ys zs
  assume "ys \<in> set (map (\<lambda>y. map (\<lambda>x. (x, y)) [y..<nb]) [0..<nb])"
    "zs \<in> set (map (\<lambda>y. map (\<lambda>x. (x, y)) [y..<nb]) [0..<nb])" "ys \<noteq> zs"
  then show "set ys \<inter> set zs = {}" by auto
qed

lemma tile_range_all: "owns_all_tiles s \<Longrightarrow> tile_range s = all_tiles (engine_numBlocks s)"
  by (simp add: owns_all_tiles_def tile_range_def)

lemma distinct_tile_range: "distinct (tile_range s)"
  by (simp add: tile_range_def distinct_all_tiles)

lemma set_tile_range_subset: "set (tile_range s) \<subseteq> set (all_tiles (engine_numBlocks s))"
  unfolding tile_range_def
  by (meson set_take_subset set_drop_subset subset_trans)

lemma fold_set_bit:
  "bit (fold (\<lambda>n acc. if P n then set_bit n acc else acc) ns (a :: nat)) m
     \<longleftrightarrow> bit a m \<or> (m \<in> set ns \<and> P m)"
  by (induction ns arbitrary: a) (auto simp: bit_set_bit_iff)

lemma bit_tile_flags:
  "bit (tile_flags s t) n \<longleftrightarrow> n < blockSize s * blockSize s \<and> pair_on s t n"
  by (simp add: tile_flags_def fold_set_bit)

lemma local_position:
  fixes B i j :: nat
  assumes "0 < B"
  shows "((i mod B) * B + j mod B) div B = i mod B" "((i mod B) * B + j mod B) mod B = j mod B"
    "(i mod B) * B + j mod B < B * B"
proof -
  show "((i mod B) * B + j mod B) div B = i mod B" using assms by simp
  show "((i mod B) * B + j mod B) mod B = j mod B" using assms by simp
  have m: "i mod B < B" "j mod B < B" using assms by simp_all
  from m(1) have "Suc (i mod B) \<le> B" by (rule Suc_leI)
  then have "Suc (i mod B) * B \<le> B * B" by (rule mult_le_mono1)
  moreover have "(i mod B) * B + j mod B < Suc (i mod B) * B" using m(2) by simp
  ultimately show "(i mod B) * B + j mod B < B * B" by linarith
qed

lemma bit_position_ordered: "j < i \<Longrightarrow> bit_position B (i, j) = (i mod B) * B + j mod B"
  by (simp add: bit_position_def max_def min_def)

lemma owning_tile_ordered: "j < i \<Longrightarrow> owning_tile B (i, j) = (i div B, j div B)"
  by (simp add: owning_tile_def block_of_def max_def min_def)

lemma pair_determined:
  assumes "0 < B" "a div B = c div B" "a mod B = c mod B"
  shows "a = (c :: nat)"
  using assms by (metis div_mult_mod_eq)

lemma bit_position_inj:
  fixes B r c r' c' :: nat
  assumes "0 < B" "r < B" "c < B" "r' < B" "c' < B" "r * B + c = r' * B + c'"
  shows "r = r' \<and> c = c'"
proof -
  have "(r * B + c) div B = (r' * B + c') div B" "(r * B + c) mod B = (r' * B + c') mod B"
    using assms(6) by simp_all
  then show ?thesis
    using assms(1-5) by simp
qed

lemma tile_mask_excluded:
  assumes "0 < B"
  shows "bit (tile_mask exclList B (owning_tile B (i, j))) (bit_position B (i, j))
     \<longleftrightarrow> excluded_pair exclList i j"
proof
  assume "bit (tile_mask exclList B (owning_tile B (i, j))) (bit_position B (i, j))"
  then obtain a b where ab: "(a, b) \<in> set (listed_pairs exclList)"
      "owning_tile B (a, b) = owning_tile B (i, j)" "bit_position B (a, b) = bit_position B (i, j)"
    by (auto simp: tile_mask_bit)
  from ab(3) have "max a b mod B = max i j mod B \<and> min a b mod B = min i j mod B"
    using assms by (intro bit_position_inj [of B]) (simp_all add: bit_position_def)
  moreover from ab(2) have "max a b div B = max i j div B" "min a b div B = min i j div B"
    by (simp_all add: owning_tile_def block_of_def)
  ultimately have "max a b = max i j" "min a b = min i j"
    using assms by (auto intro: pair_determined)
  then have "(a = i \<and> b = j) \<or> (a = j \<and> b = i)"
    by (auto simp: max_def min_def split: if_splits)
  with ab(1) show "excluded_pair exclList i j"
    by (auto simp: excluded_pair_def set_listed_pairs)
next
  assume "excluded_pair exclList i j"
  then have "(i, j) \<in> set (listed_pairs exclList) \<or> (j, i) \<in> set (listed_pairs exclList)"
    by (auto simp: excluded_pair_def set_listed_pairs)
  moreover have "owning_tile B (j, i) = owning_tile B (i, j)"
      "bit_position B (j, i) = bit_position B (i, j)"
    by (simp_all add: owning_tile_def bit_position_def max.commute min.commute)
  ultimately show "bit (tile_mask exclList B (owning_tile B (i, j))) (bit_position B (i, j))"
    by (auto simp: tile_mask_bit)
qed

lemma tile_exclusions_build:
  assumes "exclusion_set s = build el n B" "y \<le> x" "x < numBlocks_of n B"
  shows "tile_exclusions s (x, y) = tile_mask el B (x, y)"
proof -
  let ?nb = "numBlocks_of n B"
  let ?m = "tile_mask el B"
  have y: "y < ?nb" using assms(2,3) by simp
  have find: "findExclusionIndex (int x) (int y) (exclusionIndices (exclusion_set s))
        (exclusionRowIndices (exclusion_set s))
      = scan_row (map fst (emitted_tiles ?m ?nb)) x (row_start ?m ?nb y)
          (row_start ?m ?nb (Suc y))"
    using assms(2) y
    by (simp add: findExclusionIndex_def assms(1) build_def Let_def row_offsets_build)
  show ?thesis
  proof (cases "scan_row (map fst (emitted_tiles ?m ?nb)) x (row_start ?m ?nb y)
      (row_start ?m ?nb (Suc y))")
    case (Inl e)
    have "?m (x, y) = 0"
    proof (rule ccontr)
      assume "?m (x, y) \<noteq> 0"
      from scan_built_row [of y x ?nb ?m, OF assms(2,3) this] Inl show False by simp
    qed
    with Inl find show ?thesis
      by (simp add: tile_exclusions_def)
  next
    case (Inr q)
    from scan_row_result [OF Inr]
    have q: "row_start ?m ?nb y \<le> q" "q < row_start ?m ?nb (Suc y)"
        "q < length (map fst (emitted_tiles ?m ?nb))" "map fst (emitted_tiles ?m ?nb) ! q = x"
      by simp_all
    from emitted_tiles_row [OF y q(1,2)] q(3,4)
    have "emitted_tiles ?m ?nb ! q = (x, y)"
      by (simp add: prod_eq_iff)
    with Inr find q(3) show ?thesis
      by (simp add: tile_exclusions_def assms(1) build_def Let_def)
  qed
qed

lemma tile_range_findBlockBounds: "tile_range (findBlockBounds s) = tile_range s"
  by (simp add: findBlockBounds_def tile_range_def)

lemma distinct_all_interacting: "distinct (all_interacting s)"
  by (simp add: all_interacting_def distinct_tile_range)

lemma all_interacting_tiles:
  assumes "t \<in> set (all_interacting (findBlockBounds s))"
  shows "snd t \<le> fst t \<and> fst t < engine_numBlocks s"
proof -
  from assms have "t \<in> set (tile_range s)"
    by (simp add: all_interacting_def tile_range_findBlockBounds)
  with set_tile_range_subset [of s] have "(fst t, snd t) \<in> set (all_tiles (engine_numBlocks s))"
    by auto
  then show ?thesis by (simp only: in_all_tiles)
qed

lemma pair_on_canonical:
  assumes "0 < blockSize s" "j < i"
    "exclusion_set s = build (excluded_atoms s) (engine_numAtoms s) (blockSize s)"
    "i < engine_numAtoms s"
  shows "pair_on s (i div blockSize s, j div blockSize s) (bit_position (blockSize s) (i, j))
     \<longleftrightarrow> within_cutoff s i j \<and> \<not> excluded_pair (excluded_atoms s) i j"
proof -
  let ?B = "blockSize s"
  let ?n = "(i mod ?B) * ?B + j mod ?B"
  have n: "bit_position ?B (i, j) = ?n" using assms(2) by (rule bit_position_ordered)
  have t: "(i div ?B, j div ?B) = owning_tile ?B (i, j)"
    using assms(2) by (simp add: owning_tile_ordered)
  have "j div ?B \<le> i div ?B" using assms(2) by (simp add: div_le_mono)
  moreover have "i div ?B < numBlocks_of (engine_numAtoms s) ?B"
    using assms(1,4) by (simp add: div_less_numBlocks)
  ultimately have "tile_exclusions s (i div ?B, j div ?B)
      = tile_mask (excluded_atoms s) ?B (i div ?B, j div ?B)"
    by (intro tile_exclusions_build [OF assms(3)])
  then have "bit (tile_exclusions s (i div ?B, j div ?B)) ?n
      \<longleftrightarrow> excluded_pair (excluded_atoms s) i j"
    using tile_mask_excluded [OF assms(1), of "excluded_atoms s" i j] by (simp add: t n)
  then show ?thesis
    using assms(2,4) by (simp add: pair_on_def n local_position [OF assms(1)] Let_def)
qed

lemma pair_on_not_excluded:
  assumes "0 < blockSize s" "pair_on s (x, y) n" "n < blockSize s * blockSize s"
    "exclusion_set s = build (excluded_atoms s) (engine_numAtoms s) (blockSize s)"
    "y \<le> x" "x < engine_numBlocks s"
  shows "\<not> excluded_pair (excluded_atoms s)
           (x * blockSize s + n div blockSize s) (y * blockSize s + n mod blockSize s)"
proof -
  let ?B = "blockSize s"
  let ?a = "x * ?B + n div ?B"
  let ?b = "y * ?B + n mod ?B"
  have r: "n div ?B < ?B" "n mod ?B < ?B"
    using assms(1,3) by (simp_all add: less_mult_imp_div_less)
  have ab: "?b < ?a" "\<not> bit (tile_exclusions s (x, y)) n"
    using assms(2) by (simp_all add: pair_on_def Let_def)
  have d: "?a div ?B = x" "?b div ?B = y" "?a mod ?B = n div ?B" "?b mod ?B = n mod ?B"
    using r assms(1) by simp_all
  have "owning_tile ?B (?a, ?b) = (x, y)"
    using ab(1) d by (simp add: owning_tile_ordered)
  moreover have "bit_position ?B (?a, ?b) = n"
    using ab(1) d by (simp add: bit_position_ordered)
  moreover have "tile_exclusions s (x, y) = tile_mask (excluded_atoms s) ?B (x, y)"
    using assms(5,6) by (intro tile_exclusions_build [OF assms(4)]) (simp_all add: engine_numBlocks_def)
  ultimately show ?thesis
    using tile_mask_excluded [OF assms(1), of "excluded_atoms s" ?a ?b] ab(2) by simp
qed

lemma evaluated_pairs_member:
  assumes "(k, a, b) \<in> set (evaluated_pairs s)"
  shows "\<exists>n. k < length (interactingTiles s) \<and> k < length (interactionFlags s)
     \<and> n < blockSize s * blockSize s \<and> bit (interactionFlags s ! k) n
     \<and> a = fst (interactingTiles s ! k) * blockSize s + n div blockSize s
     \<and> b = snd (interactingTiles s ! k) * blockSize s + n mod blockSize s"
proof -
  let ?B = "blockSize s"
  from assms have "\<exists>k' \<in> set [0..<min (length (interactingTiles s)) (length (interactionFlags s))].
      (k, a, b) \<in> set (tile_pairs ?B k' (interactingTiles s ! k') (interactionFlags s ! k'))"
    unfolding evaluated_pairs_def set_concat set_map by blast
  then obtain k' where k': "k' < min (length (interactingTiles s)) (length (interactionFlags s))"
      "(k, a, b) \<in> set (tile_pairs ?B k' (interactingTiles s ! k') (interactionFlags s ! k'))"
    by auto
  from k'(2) obtain n where n: "n \<in> set (filter (\<lambda>n. bit (interactionFlags s ! k') n) [0..<?B * ?B])"
      "(k, a, b) = (k', fst (interactingTiles s ! k') * ?B + n div ?B,
          snd (interactingTiles s ! k') * ?B + n mod ?B)"
    unfolding tile_pairs_def set_map by blast
  from n(2) have "k = k'" "a = fst (interactingTiles s ! k) * ?B + n div ?B"
      "b = snd (interactingTiles s ! k) * ?B + n mod ?B"
    by simp_all
  moreover from n(1) \<open>k = k'\<close> have "n < ?B * ?B" "bit (interactionFlags s ! k) n"
    by simp_all
  moreover from k'(1) \<open>k = k'\<close> have "k < length (interactingTiles s)"
      "k < length (interactionFlags s)"
    by simp_all
  ultimately show ?thesis by blast
qed

lemma prepared_fields:
  assumes "prepareInteractions s = Some s'"
  shows "blockSize s' = blockSize s"
    "interactingTiles s' = all_interacting (findBlockBounds s)"
    "interactionFlags s' = map (tile_flags s) (all_interacting (findBlockBounds s))"
proof -
  from prepareInteractions_shape [OF assms] obtain m where
    "s' = (findBlockBounds s)\<lparr> max_tiles := m,
        interactionCount := length (all_interacting (findBlockBounds s)),
        interactingTiles := all_interacting (findBlockBounds s),
        interactionFlags := map (tile_flags s) (all_interacting (findBlockBounds s)) \<rparr>"
    by (elim exE conjE)
  then show "blockSize s' = blockSize s"
    "interactingTiles s' = all_interacting (findBlockBounds s)"
    "interactionFlags s' = map (tile_flags s) (all_interacting (findBlockBounds s))"
    by (simp_all add: findBlockBounds_def)
qed

lemma pair_flagged_prepared:
  assumes "prepareInteractions s = Some s'"
  shows "pair_flagged s' k i j \<longleftrightarrow>
     k < length (all_interacting (findBlockBounds s))
     \<and> all_interacting (findBlockBounds s) ! k = (i div blockSize s, j div blockSize s)
     \<and> bit (tile_flags s (i div blockSize s, j div blockSize s))
           (bit_position (blockSize s) (i, j))"
  by (auto simp: pair_flagged_def prepared_fields [OF assms] block_of_def)

lemma flagged_exactly_once:
  assumes ready: "engine_ready s" and own: "owns_all_tiles s"
    and prep: "prepareInteractions s = Some s'"
    and pair: "j < i" "i < engine_numAtoms s" "within_cutoff s i j"
      "\<not> excluded_pair (excluded_atoms s) i j"
  shows "\<exists>!k. pair_flagged s' k i j"
proof -
  let ?B = "blockSize s"
  let ?A = "all_interacting (findBlockBounds s)"
  let ?t = "(i div ?B, j div ?B)"
  have B: "0 < ?B"
    and ex: "exclusion_set s = build (excluded_atoms s) (engine_numAtoms s) ?B"
    and box: "uses_periodic s \<longrightarrow> 0 < axis 0 (periodicBoxSize s)
       \<and> 0 < axis 1 (periodicBoxSize s) \<and> 0 < axis 2 (periodicBoxSize s)"
    using ready by (simp_all add: engine_ready_def)
  have j: "j < engine_numAtoms s" using pair(1,2) by simp
  have "j div ?B \<le> i div ?B" using pair(1) by (simp add: div_le_mono)
  moreover have "i div ?B < engine_numBlocks s"
    using B pair(2) by (simp add: engine_numBlocks_def div_less_numBlocks)
  ultimately have "?t \<in> set (tile_range s)"
    by (simp add: tile_range_all [OF own] in_all_tiles)
  moreover have "tile_interacts (findBlockBounds s) ?t"
    using pair(2) j B box pair(3) by (rule within_cutoff_tile_interacts)
  ultimately have "?t \<in> set ?A"
    by (simp add: all_interacting_def tile_range_findBlockBounds)
  then obtain k where k: "k < length ?A" "?A ! k = ?t"
    by (auto simp: in_set_conv_nth)
  have "pair_on s ?t (bit_position ?B (i, j))"
    using pair by (simp add: pair_on_canonical [OF B pair(1) ex pair(2)])
  moreover have "bit_position ?B (i, j) < ?B * ?B"
    using local_position(3) [OF B] pair(1) by (simp add: bit_position_ordered)
  ultimately have "bit (tile_flags s ?t) (bit_position ?B (i, j))"
    by (simp add: bit_tile_flags)
  with k have "pair_flagged s' k i j"
    by (simp add: pair_flagged_prepared [OF prep])
  moreover have "k' = k" if "pair_flagged s' k' i j" for k'
  proof -
    from that have "k' < length ?A" "?A ! k' = ?A ! k"
      by (simp_all add: pair_flagged_prepared [OF prep] k)
    with k(1) distinct_all_interacting [of "findBlockBounds s"] show ?thesis
      by (simp add: nth_eq_iff_index_eq)
  qed
  ultimately show ?thesis by blast
qed

lemma excluded_not_flagged:
  assumes ready: "engine_ready s" and prep: "prepareInteractions s = Some s'"
    and pair: "j < i" "excluded_pair (excluded_atoms s) i j"
  shows "\<not> pair_flagged s' k i j"
proof
  let ?B = "blockSize s"
  assume f: "pair_flagged s' k i j"
  have B: "0 < ?B"
    and ex: "exclusion_set s = build (excluded_atoms s) (engine_numAtoms s) ?B"
    using ready by (simp_all add: engine_ready_def)
  from f have "pair_on s (i div ?B, j div ?B) (bit_position ?B (i, j))"
    by (simp add: pair_flagged_prepared [OF prep] bit_tile_flags)
  moreover from this have "i < engine_numAtoms s"
    using pair(1)
    by (simp add: pair_on_def Let_def bit_position_ordered local_position [OF B])
  ultimately show False
    using pair by (simp add: pair_on_canonical [OF B pair(1) ex])
qed

lemma excluded_not_evaluated:
  assumes ready: "engine_ready s" and prep: "prepareInteractions s = Some s'"
    and pair: "excluded_pair (excluded_atoms s) a b"
  shows "(k, a, b) \<notin> set (evaluated_pairs s')"
proof
  let ?B = "blockSize s"
  let ?A = "all_interacting (findBlockBounds s)"
  assume "(k, a, b) \<in> set (evaluated_pairs s')"
  from evaluated_pairs_member [OF this]
  obtain n where n: "k < length ?A" "n < ?B * ?B" "bit (tile_flags s (?A ! k)) n"
      "a = fst (?A ! k) * ?B + n div ?B" "b = snd (?A ! k) * ?B + n mod ?B"
    by (auto simp: prepared_fields [OF prep])
  have B: "0 < ?B"
    and ex: "exclusion_set s = build (excluded_atoms s) (engine_numAtoms s) ?B"
    using ready by (simp_all add: engine_ready_def)
  obtain x y where t: "?A ! k = (x, y)" by (cases "?A ! k")
  have "?A ! k \<in> set ?A" using n(1) by simp
  from all_interacting_tiles [OF this] have xy: "y \<le> x" "x < engine_numBlocks s"
    by (simp_all add: t)
  have "pair_on s (x, y) n"
    using n(3) by (simp add: bit_tile_flags t)
  from pair_on_not_excluded [OF B this n(2) ex xy] pair n(4,5) show False
    by (simp add: t)
qed

lemma computeInteractions_cong:
  assumes "\<And>k i j. (k, i, j) \<in> set (evaluated_pairs s) \<Longrightarrow> term i j = term' i j"
  shows "computeInteractions term s buffers = computeInteractions term' s buffers"
  unfolding computeInteractions_def
proof (rule fold_cong [OF refl refl])
  fix e assume e: "e \<in> set (evaluated_pairs s)"
  obtain k i j where "e = (k, i, j)" by (cases e)
  with e assms show "accumulate_pair term e = accumulate_pair term' e"
    by (simp add: accumulate_pair_def fun_eq_iff)
qed

text \<open>
  Claim C1. On a ready engine that owns the whole tile space, \<open>prepareInteractions\<close>
  returns, and in the state it leaves: every pair of particles \<open>j < i\<close> that is within
  the cutoff and not excluded has its bit set in the flags of exactly one entry of the
  interacting tile list; no excluded pair is among the pairs that \<open>computeInteractions\<close>
  evaluates, whatever its distance, and its bit is off; and the forces and energies that
  \<open>computeInteractions\<close> accumulates do not depend on what the interaction would give
  for an excluded pair.
\<close>

theorem flags_cover_pairs_and_exclusions:
  assumes "engine_ready s" "owns_all_tiles s"
  shows "\<exists>s'. prepareInteractions s = Some s'
     \<and> (\<forall>i j. j < i \<and> i < engine_numAtoms s \<and> within_cutoff s i j
            \<and> \<not> excluded_pair (excluded_atoms s) i j \<longrightarrow> (\<exists>!k. pair_flagged s' k i j))
     \<and> (\<forall>i j k. excluded_pair (excluded_atoms s) i j \<longrightarrow>
            (k, i, j) \<notin> set (evaluated_pairs s') \<and> (j < i \<longrightarrow> \<not> pair_flagged s' k i j))
     \<and> (\<forall>f g buffers.
            (\<forall>i j. \<not> excluded_pair (excluded_atoms s) i j \<longrightarrow> f i j = g i j) \<longrightarrow>
            computeInteractions f s' buffers = computeInteractions g s' buffers)"
proof -
  from assms(1) have "2 \<le> growth_factor s" "1 \<le> max_tiles s"
    by (simp_all add: engine_ready_def)
  from prepareInteractions_total [OF this] obtain s' where prep: "prepareInteractions s = Some s'"
    by blast
  show ?thesis
  proof (intro exI [of _ s'] conjI allI impI)
    show "prepareInteractions s = Some s'" by (rule prep)
  next
    fix i j
    assume "j < i \<and> i < engine_numAtoms s \<and> within_cutoff s i j
        \<and> \<not> excluded_pair (excluded_atoms s) i j"
    then have "j < i" "i < engine_numAtoms s" "within_cutoff s i j"
        "\<not> excluded_pair (excluded_atoms s) i j"
      by simp_all
    then show "\<exists>!k. pair_flagged s' k i j"
      by (rule flagged_exactly_once [OF assms prep])
  next
    fix i j k
    assume "excluded_pair (excluded_atoms s) i j"
    then show "(k, i, j) \<notin> set (evaluated_pairs s')"
      by (rule excluded_not_evaluated [OF assms(1) prep])
  next
    fix i j k
    assume "excluded_pair (excluded_atoms s) i j" "j < i"
    then show "\<not> pair_flagged s' k i j"
      by (intro excluded_not_flagged [OF assms(1) prep])
  next
    fix f g :: pair_term and buffers
    assume same: "\<forall>i j. \<not> excluded_pair (excluded_atoms s) i j \<longrightarrow> f i j = g i j"
    show "computeInteractions f s' buffers = computeInteractions g s' buffers"
    proof (rule computeInteractions_cong)
      fix k i j assume "(k, i, j) \<in> set (evaluated_pairs s')"
      with excluded_not_evaluated [OF assms(1) prep, of i j k]
      have "\<not> excluded_pair (excluded_atoms s) i j"
        by blast
      with same show "f i j = g i j" by blast
    qed
  qed
qed

lemma example_engine_ready: "engine_ready example_engine"
  by code_simp

lemma example_owns_all_tiles: "owns_all_tiles example_engine"
  by code_simp

lemma example_pair_in_range:
  "within_cutoff example_engine 2 1 \<and> \<not> excluded_pair (excluded_atoms example_engine) 2 1
   \<and> 2 < engine_numAtoms example_engine"
  by code_simp

lemma example_pair_excluded: "excluded_pair (excluded_atoms example_engine) 1 0"
  by code_simp

lemma example_ready_unfolded:
  "0 < blockSize example_engine \<and> 1 \<le> max_tiles example_engine
   \<and> 2 \<le> growth_factor example_engine
   \<and> exclusion_set example_engine
       = build (excluded_atoms example_engine) (engine_numAtoms example_engine)
           (blockSize example_engine)
   \<and> uses_periodic example_engine = False
   \<and> tile_start example_engine = 0
   \<and> length (all_tiles (engine_numBlocks example_engine)) \<le> tile_count example_engine
   \<and> pair_distance2 example_engine 2 1
       \<le> cutoff_distance example_engine * cutoff_distance example_engine
   \<and> pair_flagged example_prepared 1 2 1"
  by code_simp

theorem flags_cover_pairs_and_exclusions_witness:
  "0 < blockSize example_engine \<and> 1 \<le> max_tiles example_engine
   \<and> 2 \<le> growth_factor example_engine
   \<and> exclusion_set example_engine
       = build (excluded_atoms example_engine) (engine_numAtoms example_engine)
           (blockSize example_engine)
   \<and> uses_periodic example_engine = False
   \<and> tile_start example_engine = 0
   \<and> length (all_tiles (engine_numBlocks example_engine)) \<le> tile_count example_engine
   \<and> pair_distance2 example_engine 2 1
       \<le> cutoff_distance example_engine * cutoff_distance example_engine
   \<and> pair_flagged example_prepared 1 2 1
   \<and> prepareInteractions example_engine = Some example_prepared
   \<and> \<not> excluded_pair (excluded_atoms example_engine) 2 1
   \<and> (\<exists>k. pair_flagged example_prepared k 2 1)
   \<and> excluded_pair (excluded_atoms example_engine) 1 0
   \<and> (0, 1, 0) \<notin> set (evaluated_pairs example_prepared)
   \<and> \<not> pair_flagged example_prepared 0 1 0"
proof -
  from flags_cover_pairs_and_exclusions [OF example_engine_ready example_owns_all_tiles]
  obtain s' where prep: "prepareInteractions example_engine = Some s'"
    and one: "\<forall>i j. j < i \<and> i < engine_numAtoms example_engine \<and> within_cutoff example_engine i j
            \<and> \<not> excluded_pair (excluded_atoms example_engine) i j
            \<longrightarrow> (\<exists>!k. pair_flagged s' k i j)"
    and two: "\<forall>i j k. excluded_pair (excluded_atoms example_engine) i j \<longrightarrow>
            (k, i, j) \<notin> set (evaluated_pairs s') \<and> (j < i \<longrightarrow> \<not> pair_flagged s' k i j)"
    by (elim exE conjE)
  from prep have s': "s' = example_prepared"
    by (simp add: example_prepareInteractions)
  have "\<exists>!k. pair_flagged s' k 2 1"
    using one [rule_format, of 1 2] example_pair_in_range by simp
  then have a: "\<exists>k. pair_flagged example_prepared k 2 1"
    unfolding s' by (rule ex1_implies_ex)
  have b: "(0, 1, 0) \<notin> set (evaluated_pairs example_prepared)"
      "\<not> pair_flagged example_prepared 0 1 0"
    using two [rule_format, of 1 0 0] example_pair_excluded unfolding s' by simp_all
  from a b example_ready_unfolded example_prepareInteractions example_pair_in_range
    example_pair_excluded
  show ?thesis by simp
qed

end
